theory Spec2Isabelle
  imports Main "HOL-Library.Word"
begin

unbundle bit_operations_syntax

section \<open>Machine types\<close>

text \<open>
  The firmware runs on an ATmega16: \<open>uint8_t\<close> is an 8-bit word, \<open>uint16_t\<close> and
  \<open>unsigned int\<close> are 16-bit words, \<open>unsigned long\<close> is a 32-bit word.
\<close>

type_synonym u8 = "8 word"
type_synonym u16 = "16 word"
type_synonym u32 = "32 word"

section \<open>Channel register blocks (channel\_mem.c)\<close>

text \<open>
  A \<open>ChannelBlock\<close> is a struct of 64 \<open>uint8_t\<close> fields that the firmware also
  addresses as a byte array (\<open>((uint8_t*)ch) + offset\<close>). It is modelled as a list of
  64 bytes; the named fields are the offsets of the struct declaration.
\<close>

type_synonym ChannelBlock = "u8 list"

definition CHAN_BASE_A :: nat where "CHAN_BASE_A = 0x080"
definition CHAN_BASE_B :: nat where "CHAN_BASE_B = 0x180"
definition CHAN_BLOCK_SIZE :: nat where "CHAN_BLOCK_SIZE = 64"

definition OFF_cond_module :: nat where "OFF_cond_module = 0x04"
definition OFF_apply_channel :: nat where "OFF_apply_channel = 0x05"
definition OFF_ma_range_high :: nat where "OFF_ma_range_high = 0x06"
definition OFF_ma_range_low :: nat where "OFF_ma_range_low = 0x07"
definition OFF_bank :: nat where "OFF_bank = 0x0C"
definition OFF_random_min :: nat where "OFF_random_min = 0x0D"
definition OFF_random_max :: nat where "OFF_random_max = 0x0E"
definition OFF_gate_value :: nat where "OFF_gate_value = 0x10"
definition OFF_FREQ :: nat where "OFF_FREQ = 0x2E"
definition OFF_WIDTH :: nat where "OFF_WIDTH = 0x37"

definition gate_value :: "ChannelBlock \<Rightarrow> u8" where
  "gate_value ch = ch ! OFF_gate_value"
definition freq_value :: "ChannelBlock \<Rightarrow> u8" where
  "freq_value ch = ch ! OFF_FREQ"
definition width_value :: "ChannelBlock \<Rightarrow> u8" where
  "width_value ch = ch ! OFF_WIDTH"

text \<open>\<open>channel_defaults\<close>, the image \<open>channel_load_defaults\<close> copies into a block.\<close>

definition channel_defaults :: ChannelBlock where
  "channel_defaults =
     [0x00, 0x00, 0x02, 0x00, 0x00, 0x03, 0x01, 0xFF,
      0x00, 0x00, 0x00, 0x00, 0x00, 0x00, 0x08, 0x00,
      0x07, 0x00, 0x00, 0x00, 0x00, 0xFF, 0x00, 0x00,
      0x3E, 0x3E, 0x00, 0x00,
      0x9C, 0x9C, 0xFF, 0x07, 0x01, 0xFC, 0xFC, 0x01, 0x00,
      0xFF, 0xCD, 0xFF, 0x01, 0x01, 0xFF, 0xFF, 0x00, 0x00,
      0x16, 0x09, 0x64, 0x01, 0x01, 0xFF, 0xFF, 0x08, 0x00,
      0x82, 0x32, 0xC8, 0x01, 0x01, 0xFF, 0xFF, 0x04, 0x00]"


definition GATE_ON_BIT :: u8 where "GATE_ON_BIT = 0x01"
definition GATE_ALT_POL :: u8 where "GATE_ALT_POL = 0x08"

section \<open>Pulse generator (pulse\_gen.h, pulse\_gen.c, interrupts.c)\<close>

datatype PulsePhase = PH_POSITIVE | PH_DEADTIME1 | PH_NEGATIVE | PH_DEADTIME2 | PH_GAP

record ChannelPulseState =
  gate :: u8
  width_ticks :: u8
  period_ticks :: u16
  phase :: PulsePhase
  gap_remaining :: u16
  pending_width :: u8
  pending_period :: u16
  params_dirty :: u8

text \<open>
  The hardware a channel's ISR drives: its two H-bridge pins of PORTB and the compare
  register of its timer (OCR1A for channel A; the 8-bit OCR2 for channel B, held here in
  the low byte).
\<close>

record PulseChannel = ChannelPulseState +
  pin_pos :: bool
  pin_neg :: bool
  ocr :: u16

record PulseGen =
  pulse_ch_a :: PulseChannel
  pulse_ch_b :: PulseChannel

definition PULSE_OFF :: u8 where "PULSE_OFF = 0"
definition PULSE_ON :: u8 where "PULSE_ON = 1"
definition DEAD_TIME_TICKS :: u16 where "DEAD_TIME_TICKS = 4"

definition pulse_channel_init :: PulseChannel where
  "pulse_channel_init =
     \<lparr>gate = PULSE_OFF, width_ticks = 100, period_ticks = 5000, phase = PH_GAP,
      gap_remaining = 0, pending_width = 100, pending_period = 5000, params_dirty = 0,
      pin_pos = False, pin_neg = False, ocr = 250\<rparr>"

definition pulse_gen_init :: PulseGen where
  "pulse_gen_init = \<lparr>pulse_ch_a = pulse_channel_init, pulse_ch_b = pulse_channel_init\<rparr>"

text \<open>
  The bodies of \<open>pulse_set_width_a\<close> and \<open>pulse_set_width_b\<close> are the same on their
  own channel struct; the critical section (\<open>cli\<close> ... \<open>SREG = sreg\<close>) makes each an
  atomic step.
\<close>

definition pulse_set_width :: "u8 \<Rightarrow> PulseChannel \<Rightarrow> PulseChannel" where
  "pulse_set_width width_us c =
     (let width_us = (if width_us < 70 then 70 else width_us)
      in c\<lparr>pending_width := width_us, params_dirty := 1\<rparr>)"

definition pulse_set_frequency :: "u16 \<Rightarrow> PulseChannel \<Rightarrow> PulseChannel" where
  "pulse_set_frequency period_us c =
     (let period_us = (if period_us < 500 then 500 else period_us)
      in c\<lparr>pending_period := period_us, params_dirty := 1\<rparr>)"

definition pulse_set_gate :: "u8 \<Rightarrow> PulseChannel \<Rightarrow> PulseChannel" where
  "pulse_set_gate on c =
     (let c = c\<lparr>gate := on\<rparr>
      in if on = 0 then c\<lparr>pin_pos := False, pin_neg := False\<rparr> else c)"

definition pulse_set_width_a :: "u8 \<Rightarrow> PulseGen \<Rightarrow> PulseGen" where
  "pulse_set_width_a width_us g = g\<lparr>pulse_ch_a := pulse_set_width width_us (pulse_ch_a g)\<rparr>"
definition pulse_set_width_b :: "u8 \<Rightarrow> PulseGen \<Rightarrow> PulseGen" where
  "pulse_set_width_b width_us g = g\<lparr>pulse_ch_b := pulse_set_width width_us (pulse_ch_b g)\<rparr>"
definition pulse_set_frequency_a :: "u16 \<Rightarrow> PulseGen \<Rightarrow> PulseGen" where
  "pulse_set_frequency_a period_us g =
     g\<lparr>pulse_ch_a := pulse_set_frequency period_us (pulse_ch_a g)\<rparr>"
definition pulse_set_frequency_b :: "u16 \<Rightarrow> PulseGen \<Rightarrow> PulseGen" where
  "pulse_set_frequency_b period_us g =
     g\<lparr>pulse_ch_b := pulse_set_frequency period_us (pulse_ch_b g)\<rparr>"
definition pulse_set_gate_a :: "u8 \<Rightarrow> PulseGen \<Rightarrow> PulseGen" where
  "pulse_set_gate_a on g = g\<lparr>pulse_ch_a := pulse_set_gate on (pulse_ch_a g)\<rparr>"
definition pulse_set_gate_b :: "u8 \<Rightarrow> PulseGen \<Rightarrow> PulseGen" where
  "pulse_set_gate_b on g = g\<lparr>pulse_ch_b := pulse_set_gate on (pulse_ch_b g)\<rparr>"

definition ch_all_off :: "PulseChannel \<Rightarrow> PulseChannel" where
  "ch_all_off c = c\<lparr>pin_pos := False, pin_neg := False\<rparr>"
definition ch_positive :: "PulseChannel \<Rightarrow> PulseChannel" where
  "ch_positive c = c\<lparr>pin_neg := False, pin_pos := True\<rparr>"
definition ch_negative :: "PulseChannel \<Rightarrow> PulseChannel" where
  "ch_negative c = c\<lparr>pin_pos := False, pin_neg := True\<rparr>"

text \<open>
  The gap both ISRs compute in \<open>PH_DEADTIME2\<close>:
  \<open>used = (uint16_t)width_ticks * 2 + DEAD_TIME_TICKS * 2\<close>, then
  \<open>period_ticks - used\<close> if \<open>period_ticks > used\<close>, else \<open>DEAD_TIME_TICKS\<close>.
\<close>

definition deadtime2_gap :: "u8 \<Rightarrow> u16 \<Rightarrow> u16" where
  "deadtime2_gap w p =
     (let used = (ucast w :: u16) * 2 + DEAD_TIME_TICKS * 2
      in if p > used then p - used else DEAD_TIME_TICKS)"

text \<open>
  The part of a gap that fits the 8-bit compare register at once; the ISR of channel B
  loads it in \<open>PH_DEADTIME2\<close> and keeps the rest in \<open>gap_remaining\<close>.
\<close>

definition first_chunk :: "u16 \<Rightarrow> u16" where
  "first_chunk gap = (if gap \<le> 250 then gap else 250)"

definition latch_pending :: "PulseChannel \<Rightarrow> PulseChannel" where
  "latch_pending c =
     (if params_dirty c \<noteq> 0
      then c\<lparr>width_ticks := pending_width c, period_ticks := pending_period c,
             params_dirty := 0\<rparr>
      else c)"

definition TIMER1_COMPA_vect :: "PulseChannel \<Rightarrow> PulseChannel" where
  "TIMER1_COMPA_vect c =
     (case phase c of
        PH_GAP \<Rightarrow>
          (let c = latch_pending c
           in if gate c = 0 then (ch_all_off c)\<lparr>ocr := 250\<rparr>
              else (ch_positive c)\<lparr>ocr := ucast (width_ticks c), phase := PH_POSITIVE\<rparr>)
      | PH_POSITIVE \<Rightarrow> (ch_all_off c)\<lparr>ocr := DEAD_TIME_TICKS, phase := PH_DEADTIME1\<rparr>
      | PH_DEADTIME1 \<Rightarrow> (ch_negative c)\<lparr>ocr := ucast (width_ticks c), phase := PH_NEGATIVE\<rparr>
      | PH_NEGATIVE \<Rightarrow> (ch_all_off c)\<lparr>ocr := DEAD_TIME_TICKS, phase := PH_DEADTIME2\<rparr>
      | PH_DEADTIME2 \<Rightarrow>
          (let gap = deadtime2_gap (width_ticks c) (period_ticks c)
           in c\<lparr>ocr := gap, phase := PH_GAP\<rparr>))"

definition TIMER2_COMP_vect :: "PulseChannel \<Rightarrow> PulseChannel" where
  "TIMER2_COMP_vect c =
     (case phase c of
        PH_GAP \<Rightarrow>
          (if gap_remaining c > 0
           then (let chunk = gap_remaining c;
                     chunk = (if chunk > 250 then 250 else chunk)
                 in c\<lparr>ocr := ucast (ucast chunk :: u8),
                       gap_remaining := gap_remaining c - chunk\<rparr>)
           else (let c = latch_pending c
                 in if gate c = 0 then (ch_all_off c)\<lparr>ocr := 250\<rparr>
                    else (ch_positive c)\<lparr>ocr := ucast (width_ticks c),
                                            phase := PH_POSITIVE\<rparr>))
      | PH_POSITIVE \<Rightarrow> (ch_all_off c)\<lparr>ocr := DEAD_TIME_TICKS, phase := PH_DEADTIME1\<rparr>
      | PH_DEADTIME1 \<Rightarrow> (ch_negative c)\<lparr>ocr := ucast (width_ticks c), phase := PH_NEGATIVE\<rparr>
      | PH_NEGATIVE \<Rightarrow> (ch_all_off c)\<lparr>ocr := DEAD_TIME_TICKS, phase := PH_DEADTIME2\<rparr>
      | PH_DEADTIME2 \<Rightarrow>
          (let gap = deadtime2_gap (width_ticks c) (period_ticks c)
           in if gap \<le> 250
              then c\<lparr>ocr := ucast (ucast gap :: u8), gap_remaining := 0, phase := PH_GAP\<rparr>
              else c\<lparr>ocr := 250, gap_remaining := gap - 250, phase := PH_GAP\<rparr>))"

subsection \<open>Interleavings of foreground submissions and ISR firings\<close>

text \<open>
  What can happen to one channel: its timer ISR fires, or the foreground calls one of the
  three submission functions. A run is any list of these events, in any order. The log
  of a run records, at every ISR firing, the phase the ISR entered and the duration it
  loaded into the compare register for it.
\<close>

datatype pulse_event = ISR | SET_WIDTH u8 | SET_FREQUENCY u16 | SET_GATE u8

fun step_a :: "pulse_event \<Rightarrow> PulseChannel \<Rightarrow> PulseChannel" where
  "step_a ISR c = TIMER1_COMPA_vect c"
| "step_a (SET_WIDTH w) c = pulse_set_width w c"
| "step_a (SET_FREQUENCY p) c = pulse_set_frequency p c"
| "step_a (SET_GATE on) c = pulse_set_gate on c"

fun step_b :: "pulse_event \<Rightarrow> PulseChannel \<Rightarrow> PulseChannel" where
  "step_b ISR c = TIMER2_COMP_vect c"
| "step_b (SET_WIDTH w) c = pulse_set_width w c"
| "step_b (SET_FREQUENCY p) c = pulse_set_frequency p c"
| "step_b (SET_GATE on) c = pulse_set_gate on c"

fun run_events :: "(pulse_event \<Rightarrow> PulseChannel \<Rightarrow> PulseChannel) \<Rightarrow>
    pulse_event list \<Rightarrow> PulseChannel \<Rightarrow> PulseChannel" where
  "run_events st [] c = c"
| "run_events st (e # es) c = run_events st es (st e c)"

fun isr_log :: "(pulse_event \<Rightarrow> PulseChannel \<Rightarrow> PulseChannel) \<Rightarrow>
    pulse_event list \<Rightarrow> PulseChannel \<Rightarrow> (PulsePhase \<times> u16) list" where
  "isr_log st [] c = []"
| "isr_log st (e # es) c =
     (if e = ISR then (phase (st e c), ocr (st e c)) # isr_log st es (st e c)
      else isr_log st es (st e c))"

definition isr_count :: "pulse_event list \<Rightarrow> nat" where
  "isr_count evs = length (filter (\<lambda>e. e = ISR) evs)"

section \<open>Output copy of the main loop (loop() of the sketch)\<close>

text \<open>
  \<open>uint8_t width_a_us = (uint8_t)(70 + ((uint16_t)width_a * 180) >> 8);\<close>
  In C \<open>+\<close> binds tighter than \<open>>>\<close>, so the shift applies to the whole sum
  \<open>70 + width * 180\<close>, computed in 16-bit unsigned arithmetic.
\<close>

definition loop_width_us :: "u8 \<Rightarrow> u8" where
  "loop_width_us width = ucast (drop_bit 8 (70 + (ucast width :: u16) * 180))"

definition loop_period_us :: "u8 \<Rightarrow> u16" where
  "loop_period_us freq =
     (if freq < 2 then 65000 else ucast ((ucast freq :: u32) * 256))"

definition loop_output_copy :: "ChannelBlock \<Rightarrow> ChannelBlock \<Rightarrow> bool \<Rightarrow> PulseGen \<Rightarrow> PulseGen" where
  "loop_output_copy channel_a channel_b output_on g =
     (let gate_a = gate_value channel_a AND GATE_ON_BIT;
          freq_a = freq_value channel_a;
          width_a = width_value channel_a;
          gate_b = gate_value channel_b AND GATE_ON_BIT;
          freq_b = freq_value channel_b;
          width_b = width_value channel_b;
          period_a_us = loop_period_us freq_a;
          period_b_us = loop_period_us freq_b;
          width_a_us = loop_width_us width_a;
          width_b_us = loop_width_us width_b;
          g = pulse_set_width_a width_a_us g;
          g = pulse_set_width_b width_b_us g;
          g = pulse_set_frequency_a period_a_us g;
          g = pulse_set_frequency_b period_b_us g;
          pulse_a_on = (if output_on \<and> gate_a \<noteq> 0 \<and> freq_a \<ge> 2 then PULSE_ON else PULSE_OFF);
          pulse_b_on = (if output_on \<and> gate_b \<noteq> 0 \<and> freq_b \<ge> 2 then PULSE_ON else PULSE_OFF);
          g = pulse_set_gate_a pulse_a_on g;
          g = pulse_set_gate_b pulse_b_on g
      in g)"

section \<open>Parameter engine (param\_engine.c)\<close>

definition ACTION_REVERSE :: u8 where "ACTION_REVERSE = 0xFF"
definition ACTION_REV_TOGGLE :: u8 where "ACTION_REV_TOGGLE = 0xFE"
definition ACTION_LOOP :: u8 where "ACTION_LOOP = 0xFD"
definition ACTION_STOP :: u8 where "ACTION_STOP = 0xFC"
definition ACTION_IS_MODULE :: "u8 \<Rightarrow> bool" where "ACTION_IS_MODULE a = (a < 0xFC)"

definition SEL_TIMER_MASK :: u8 where "SEL_TIMER_MASK = 0x03"
definition SEL_TIMER_NONE :: u8 where "SEL_TIMER_NONE = 0x00"
definition SEL_TIMER_244HZ :: u8 where "SEL_TIMER_244HZ = 0x01"
definition SEL_TIMER_30HZ :: u8 where "SEL_TIMER_30HZ = 0x02"
definition SEL_TIMER_1HZ :: u8 where "SEL_TIMER_1HZ = 0x03"

definition DIR_UP :: u8 where "DIR_UP = 0"
definition DIR_DOWN :: u8 where "DIR_DOWN = 1"


text \<open>
  \<open>ParamGroup\<close>: the nine bytes of one parameter group. The fields carry the prefix
  \<open>g_\<close> (the source writes \<open>g->value\<close>, \<open>g->min\<close>, ...), since \<open>value\<close>, \<open>min\<close> and
  \<open>max\<close> are taken in HOL.
\<close>

record ParamGroup =
  g_value :: u8
  g_min :: u8
  g_max :: u8
  g_rate :: u8
  g_step :: u8
  g_action_min :: u8
  g_action_max :: u8
  g_select :: u8
  g_timer :: u8


definition put_group :: "ChannelBlock \<Rightarrow> nat \<Rightarrow> ParamGroup \<Rightarrow> ChannelBlock" where
  "put_group ch off g =
     ch[off := g_value g, off + 1 := g_min g, off + 2 := g_max g, off + 3 := g_rate g,
        off + 4 := g_step g, off + 5 := g_action_min g, off + 6 := g_action_max g,
        off + 7 := g_select g, off + 8 := g_timer g]"

text \<open>
  \<open>map_ma\<close> of param\_engine.c. The product is formed in 16-bit unsigned arithmetic
  (\<open>(uint16_t)ma_raw * (ma_high - ma_low)\<close>) and divided by 255.
\<close>

definition param_engine_map_ma :: "u8 \<Rightarrow> u8 \<Rightarrow> u8 \<Rightarrow> u8" where
  "param_engine_map_ma ma_raw ma_high ma_low =
     (if ma_high \<ge> ma_low
      then ma_low +
        ucast (((ucast ma_raw :: u16) * (ucast ma_high - ucast ma_low)) div 255)
      else ma_low -
        ucast (((ucast ma_raw :: u16) * (ucast ma_low - ucast ma_high)) div 255))"

text \<open>\<open>map_ma\<close> of mode\_dispatcher.c: the same, with \<open>>> 8\<close> in place of \<open>/ 255\<close>.\<close>

definition mode_dispatcher_map_ma :: "u8 \<Rightarrow> u8 \<Rightarrow> u8 \<Rightarrow> u8" where
  "mode_dispatcher_map_ma ma_raw ma_high ma_low =
     (if ma_high \<ge> ma_low
      then ma_low +
        ucast (drop_bit 8 ((ucast ma_raw :: u16) * (ucast ma_high - ucast ma_low)))
      else ma_low -
        ucast (drop_bit 8 ((ucast ma_raw :: u16) * (ucast ma_low - ucast ma_high))))"

text \<open>
  The knob scaling as the specification words it, on natural numbers: with raw knob
  \<open>K\<close> and knob-range \<open>(low, high)\<close>, \<open>low + ((K * (high - low)) >> 8)\<close> if
  \<open>high \<ge> low\<close>, else \<open>low - ((K * (low - high)) >> 8)\<close>.
\<close>

definition spec_knob_scaling :: "nat \<Rightarrow> nat \<Rightarrow> nat \<Rightarrow> nat" where
  "spec_knob_scaling K low high =
     (if high \<ge> low then low + (K * (high - low)) div 256
      else low - (K * (low - high)) div 256)"

definition resolve_source :: "u8 \<Rightarrow> u8 \<Rightarrow> u8 \<Rightarrow> u8 \<Rightarrow> u8 \<Rightarrow> u8" where
  "resolve_source index own_val adv_val ma_scaled other_val =
     (let base = index AND 0x03;
          val = (if base = 0 then own_val
                 else if base = 1 then adv_val
                 else if base = 2 then ma_scaled
                 else if base = 3 then other_val
                 else own_val)
      in if index AND 0x04 \<noteq> 0 then NOT val else val)"

text \<open>\<open>timer_fires\<close> reads the static \<open>tick_counter\<close>; here it is the first argument.\<close>

definition timer_fires :: "u8 \<Rightarrow> u8 \<Rightarrow> bool" where
  "timer_fires tick_counter timer_sel =
     (if timer_sel = SEL_TIMER_244HZ then True
      else if timer_sel = SEL_TIMER_30HZ then tick_counter AND 0x07 = 0
      else if timer_sel = SEL_TIMER_1HZ then tick_counter = 0
      else False)"


text \<open>
  \<open>do_action\<close> and \<open>step_group\<close> return the module number (or \<open>0xFF\<close>) together with
  everything they write through their pointer arguments: the group, the block (only
  \<open>gate_value\<close>, which lies outside every group) and the direction.
\<close>

definition flip_dir :: "u8 \<Rightarrow> u8" where
  "flip_dir dir = (if dir = DIR_UP then DIR_DOWN else DIR_UP)"

definition do_action ::
  "u8 \<Rightarrow> ParamGroup \<Rightarrow> ChannelBlock \<Rightarrow> u8 \<Rightarrow> u8 \<times> ParamGroup \<times> ChannelBlock \<times> u8" where
  "do_action action g ch dir =
     (if action = ACTION_REV_TOGGLE
      then (0xFF, g, ch[OFF_gate_value := gate_value ch XOR GATE_ALT_POL], flip_dir dir)
      else if action = ACTION_REVERSE then (0xFF, g, ch, flip_dir dir)
      else if action = ACTION_LOOP
      then (if dir = DIR_UP then (0xFF, g\<lparr>g_value := g_min g\<rparr>, ch, dir)
            else (0xFF, g\<lparr>g_value := g_max g\<rparr>, ch, dir))
      else if action = ACTION_STOP
      then (0xFF, g\<lparr>g_select := g_select g AND NOT SEL_TIMER_MASK\<rparr>, ch, dir)
      else if ACTION_IS_MODULE action then (action, g, ch, dir)
      else (0xFF, g, ch, dir))"

definition step_group ::
  "u8 \<Rightarrow> ParamGroup \<Rightarrow> ChannelBlock \<Rightarrow> u8 \<Rightarrow> u8 \<Rightarrow> u8 \<Rightarrow> u8 \<Rightarrow> u8 \<Rightarrow>
   u8 \<times> ParamGroup \<times> ChannelBlock \<times> u8" where
  "step_group tick_counter g ch ma_scaled adv_min adv_rate other_val dir =
     (let sel = g_select g;
          timer_sel = sel AND SEL_TIMER_MASK
      in if timer_sel = SEL_TIMER_NONE
         then (let src_bits = drop_bit 2 sel AND 0x07
               in if src_bits \<noteq> 0
                  then (0xFF, g\<lparr>g_value := resolve_source src_bits (g_value g) adv_min
                                   ma_scaled other_val\<rparr>, ch, dir)
                  else (0xFF, g, ch, dir))
         else if \<not> timer_fires tick_counter timer_sel then (0xFF, g, ch, dir)
         else
           (let rate_idx = drop_bit 5 sel AND 0x07;
                effective_rate = resolve_source rate_idx (g_rate g) adv_rate ma_scaled other_val;
                effective_rate = (if effective_rate = 0 then 1 else effective_rate);
                g = g\<lparr>g_timer := g_timer g + 1\<rparr>
            in if g_timer g < effective_rate then (0xFF, g, ch, dir)
               else
                 (let g = g\<lparr>g_timer := 0\<rparr>;
                      min_idx = drop_bit 2 sel AND 0x07;
                      g = (if min_idx \<noteq> 0
                           then g\<lparr>g_min := resolve_source min_idx (g_min g) adv_min
                                     ma_scaled other_val\<rparr>
                           else g);
                      stp = g_step g
                  in if stp = 0 then (0xFF, g, ch, dir)
                     else if dir = DIR_UP
                     then (let next = (ucast (g_value g) :: u16) + ucast stp
                           in if next \<ge> ucast (g_max g)
                              then do_action (g_action_max g) (g\<lparr>g_value := g_max g\<rparr>) ch dir
                              else (0xFF, g\<lparr>g_value := ucast next\<rparr>, ch, dir))
                     else (let next = uint (g_value g) - uint stp
                           in if next \<le> uint (g_min g)
                              then do_action (g_action_min g) (g\<lparr>g_value := g_min g\<rparr>) ch dir
                              else (0xFF, g\<lparr>g_value := word_of_int next\<rparr>, ch, dir)))))"

text \<open>
  \<open>n\<close> engine ticks seen by one group: every tick increments \<open>tick_counter\<close>
  (\<open>param_engine_tick\<close>) and then steps the group with the direction kept from the
  tick before.
\<close>

fun group_ticks ::
  "nat \<Rightarrow> u8 \<Rightarrow> u8 \<Rightarrow> u8 \<Rightarrow> u8 \<Rightarrow> u8 \<Rightarrow> ParamGroup \<times> ChannelBlock \<times> u8 \<Rightarrow>
   ParamGroup \<times> ChannelBlock \<times> u8" where
  "group_ticks 0 tick_counter ma_scaled adv_min adv_rate other_val st = st"
| "group_ticks (Suc n) tick_counter ma_scaled adv_min adv_rate other_val (g, ch, dir) =
     (let tick_counter = tick_counter + 1;
          (m, g, ch, dir) = step_group tick_counter g ch ma_scaled adv_min adv_rate other_val dir
      in group_ticks n tick_counter ma_scaled adv_min adv_rate other_val (g, ch, dir))"


text \<open>
  The group of the LOOP scenario: \<open>action_min = action_max = LOOP\<close>, \<open>step = 1\<close>,
  \<open>min = 10\<close>, \<open>max = 20\<close>, \<open>value = 10\<close>; \<open>select = 0x01\<close> (timer
  bits \<open>01\<close>, own rate, own min) with \<open>rate = 1\<close> and \<open>timer = 0\<close> makes the group
  step on every engine tick.
\<close>

definition loop_scenario_group :: ParamGroup where
  "loop_scenario_group =
     \<lparr>g_value = 10, g_min = 10, g_max = 20, g_rate = 1, g_step = 1,
      g_action_min = ACTION_LOOP, g_action_max = ACTION_LOOP, g_select = 0x01, g_timer = 0\<rparr>"

section \<open>Persistent configuration (eeprom.h, eeprom.c, config.h, config.c)\<close>

text \<open>
  The EEPROM is a byte store indexed by address. \<open>mk312bt_eeprom_write_byte\<close> changes
  one cell; \<open>mk312bt_eeprom_read_byte\<close> changes none.
\<close>

type_synonym eeprom_store = "nat \<Rightarrow> u8"

definition mk312bt_eeprom_write_byte :: "nat \<Rightarrow> u8 \<Rightarrow> eeprom_store \<Rightarrow> eeprom_store" where
  "mk312bt_eeprom_write_byte address data ee = ee(address := data)"

definition mk312bt_eeprom_read_byte :: "nat \<Rightarrow> eeprom_store \<Rightarrow> u8" where
  "mk312bt_eeprom_read_byte address ee = ee address"

definition EEPROM_CONFIG_BASE :: nat where "EEPROM_CONFIG_BASE = 0x000"
definition EEPROM_MAGIC_BYTE :: u8 where "EEPROM_MAGIC_BYTE = 0xA6"
definition EEPROM_SPLIT_A_MODE :: nat where "EEPROM_SPLIT_A_MODE = 0x016"
definition EEPROM_SPLIT_B_MODE :: nat where "EEPROM_SPLIT_B_MODE = 0x017"

record eeprom_config_t =
  magic :: u8
  top_mode :: u8
  favorite_mode :: u8
  power_level :: u8
  intensity_a :: u8
  intensity_b :: u8
  frequency_a :: u8
  frequency_b :: u8
  width_a :: u8
  width_b :: u8
  multi_adjust :: u8
  audio_gain :: u8
  split_mode :: u8
  adv_ramp_level :: u8
  adv_ramp_time :: u8
  adv_depth :: u8
  adv_tempo :: u8
  adv_frequency :: u8
  adv_effect :: u8
  adv_width :: u8
  adv_pace :: u8
  checksum :: u8

text \<open>
  The struct seen through \<open>(uint8_t*)config\<close>: its 22 one-byte fields in declaration
  order, and the struct rebuilt from 22 bytes.
\<close>

definition config_bytes :: "eeprom_config_t \<Rightarrow> u8 list" where
  "config_bytes c =
     [magic c, top_mode c, favorite_mode c, power_level c, intensity_a c, intensity_b c,
      frequency_a c, frequency_b c, width_a c, width_b c, multi_adjust c, audio_gain c,
      split_mode c, adv_ramp_level c, adv_ramp_time c, adv_depth c, adv_tempo c,
      adv_frequency c, adv_effect c, adv_width c, adv_pace c, checksum c]"

definition config_of_bytes :: "u8 list \<Rightarrow> eeprom_config_t" where
  "config_of_bytes bs =
     \<lparr>magic = bs ! 0, top_mode = bs ! 1, favorite_mode = bs ! 2, power_level = bs ! 3,
      intensity_a = bs ! 4, intensity_b = bs ! 5, frequency_a = bs ! 6, frequency_b = bs ! 7,
      width_a = bs ! 8, width_b = bs ! 9, multi_adjust = bs ! 10, audio_gain = bs ! 11,
      split_mode = bs ! 12, adv_ramp_level = bs ! 13, adv_ramp_time = bs ! 14,
      adv_depth = bs ! 15, adv_tempo = bs ! 16, adv_frequency = bs ! 17,
      adv_effect = bs ! 18, adv_width = bs ! 19, adv_pace = bs ! 20, checksum = bs ! 21\<rparr>"

definition sizeof_eeprom_config_t :: nat where
  "sizeof_eeprom_config_t = 22"

definition eeprom_calculate_checksum :: "eeprom_config_t \<Rightarrow> u8" where
  "eeprom_calculate_checksum config =
     (let ptr = config_bytes config; len = sizeof_eeprom_config_t
      in if len < 2 then 0
         else foldl (\<lambda>checksum b. checksum XOR b) 0 (take (len - 1) ptr))"

fun write_bytes :: "nat \<Rightarrow> u8 list \<Rightarrow> eeprom_store \<Rightarrow> eeprom_store" where
  "write_bytes a [] ee = ee"
| "write_bytes a (b # bs) ee = write_bytes (Suc a) bs (mk312bt_eeprom_write_byte a b ee)"

definition read_bytes :: "nat \<Rightarrow> nat \<Rightarrow> eeprom_store \<Rightarrow> u8 list" where
  "read_bytes a n ee = map (\<lambda>i. mk312bt_eeprom_read_byte (a + i) ee) [0..<n]"

text \<open>
  \<open>eeprom_save_config\<close> writes the magic and the checksum into the caller's struct and
  then stores the struct; both the struct and the store are returned.
\<close>

definition eeprom_save_config ::
  "eeprom_config_t \<Rightarrow> eeprom_store \<Rightarrow> eeprom_config_t \<times> eeprom_store" where
  "eeprom_save_config config ee =
     (let config = config\<lparr>magic := EEPROM_MAGIC_BYTE\<rparr>;
          config = config\<lparr>checksum := eeprom_calculate_checksum config\<rparr>
      in (config, write_bytes EEPROM_CONFIG_BASE (config_bytes config) ee))"

text \<open>
  \<open>eeprom_load_config\<close> fills the caller's struct with the stored bytes and returns 1
  if the magic and the checksum match, 0 otherwise.
\<close>

definition eeprom_load_config :: "eeprom_store \<Rightarrow> u8 \<times> eeprom_config_t" where
  "eeprom_load_config ee =
     (let config = config_of_bytes (read_bytes EEPROM_CONFIG_BASE sizeof_eeprom_config_t ee)
      in if magic config \<noteq> EEPROM_MAGIC_BYTE then (0, config)
         else let calculated_checksum = eeprom_calculate_checksum config
              in if calculated_checksum \<noteq> checksum config then (0, config)
                 else (1, config))"

text \<open>\<open>eeprom_init_defaults\<close>: the struct cleared, then the factory values.\<close>

definition eeprom_init_defaults :: eeprom_config_t where
  "eeprom_init_defaults =
     \<lparr>magic = EEPROM_MAGIC_BYTE, top_mode = 0, favorite_mode = 0, power_level = 1,
      intensity_a = 128, intensity_b = 128, frequency_a = 5, frequency_b = 5,
      width_a = 25, width_b = 25, multi_adjust = 128, audio_gain = 128, split_mode = 0,
      adv_ramp_level = 128, adv_ramp_time = 0, adv_depth = 50, adv_tempo = 50,
      adv_frequency = 107, adv_effect = 128, adv_width = 130, adv_pace = 50,
      checksum = 0\<rparr>"

text \<open>An erased EEPROM reads \<open>0xFF\<close> everywhere.\<close>

definition erased_eeprom :: eeprom_store where
  "erased_eeprom = (\<lambda>a. 0xFF)"

definition MODE_WAVES :: u8 where "MODE_WAVES = 0"
definition MODE_STROKE :: u8 where "MODE_STROKE = 1"
definition MODE_CLIMB :: u8 where "MODE_CLIMB = 2"
definition MODE_COMBO :: u8 where "MODE_COMBO = 3"
definition MODE_INTENSE :: u8 where "MODE_INTENSE = 4"
definition MODE_RHYTHM :: u8 where "MODE_RHYTHM = 5"
definition MODE_RANDOM2 :: u8 where "MODE_RANDOM2 = 10"
definition MODE_TOGGLE :: u8 where "MODE_TOGGLE = 11"
definition MODE_ORGASM :: u8 where "MODE_ORGASM = 12"
definition MODE_TORMENT :: u8 where "MODE_TORMENT = 13"
definition MODE_PHASE3 :: u8 where "MODE_PHASE3 = 16"
definition MODE_SPLIT :: u8 where "MODE_SPLIT = 24"

definition eeprom_load_split_modes :: "eeprom_store \<Rightarrow> u8 \<times> u8" where
  "eeprom_load_split_modes ee =
     (let a = mk312bt_eeprom_read_byte EEPROM_SPLIT_A_MODE ee;
          b = mk312bt_eeprom_read_byte EEPROM_SPLIT_B_MODE ee
      in (if a < MODE_SPLIT then a else 0, if b < MODE_SPLIT then b else 0))"

text \<open>
  \<open>system_config_t\<close>, the runtime configuration. Its fields carry the prefix \<open>sys_\<close>
  here, since most of them share their names with fields of \<open>eeprom_config_t\<close>.
\<close>

record system_config_t =
  sys_current_mode :: u8
  sys_power_level :: u8
  sys_split_mode :: u8
  sys_split_a_mode :: u8
  sys_split_b_mode :: u8
  sys_intensity_a :: u8
  sys_intensity_b :: u8
  sys_frequency_a :: u8
  sys_frequency_b :: u8
  sys_width_a :: u8
  sys_width_b :: u8
  sys_multi_adjust :: u8
  sys_audio_gain :: u8
  sys_adv_ramp_level :: u8
  sys_adv_ramp_time :: u8
  sys_adv_depth :: u8
  sys_adv_tempo :: u8
  sys_adv_frequency :: u8
  sys_adv_effect :: u8
  sys_adv_width :: u8
  sys_adv_pace :: u8
  sys_favorite_mode :: u8

definition config_set_defaults :: system_config_t where
  "config_set_defaults =
     \<lparr>sys_current_mode = MODE_WAVES, sys_power_level = 1, sys_split_mode = 0,
      sys_split_a_mode = MODE_WAVES, sys_split_b_mode = MODE_WAVES,
      sys_intensity_a = 128, sys_intensity_b = 128, sys_frequency_a = 5,
      sys_frequency_b = 5, sys_width_a = 25, sys_width_b = 25, sys_multi_adjust = 128,
      sys_audio_gain = 128, sys_adv_ramp_level = 128, sys_adv_ramp_time = 0,
      sys_adv_depth = 50, sys_adv_tempo = 50, sys_adv_frequency = 107,
      sys_adv_effect = 128, sys_adv_width = 130, sys_adv_pace = 50,
      sys_favorite_mode = MODE_WAVES\<rparr>"

text \<open>
  The state \<open>config_load_from_eeprom\<close> works on: the static \<open>system_config\<close> and the
  EEPROM.
\<close>

record persist_state =
  system_config :: system_config_t
  eeprom :: eeprom_store

definition config_load_from_eeprom :: "persist_state \<Rightarrow> persist_state" where
  "config_load_from_eeprom s =
     (let (ok, eeprom_cfg) = eeprom_load_config (eeprom s)
      in if ok \<noteq> 0
         then (let (split_a, split_b) = eeprom_load_split_modes (eeprom s)
               in s\<lparr>system_config :=
                     \<lparr>sys_current_mode = top_mode eeprom_cfg,
                      sys_power_level = power_level eeprom_cfg,
                      sys_split_mode = split_mode eeprom_cfg,
                      sys_split_a_mode = split_a,
                      sys_split_b_mode = split_b,
                      sys_intensity_a = intensity_a eeprom_cfg,
                      sys_intensity_b = intensity_b eeprom_cfg,
                      sys_frequency_a = frequency_a eeprom_cfg,
                      sys_frequency_b = frequency_b eeprom_cfg,
                      sys_width_a = width_a eeprom_cfg,
                      sys_width_b = width_b eeprom_cfg,
                      sys_multi_adjust = multi_adjust eeprom_cfg,
                      sys_audio_gain = audio_gain eeprom_cfg,
                      sys_adv_ramp_level = adv_ramp_level eeprom_cfg,
                      sys_adv_ramp_time = adv_ramp_time eeprom_cfg,
                      sys_adv_depth = adv_depth eeprom_cfg,
                      sys_adv_tempo = adv_tempo eeprom_cfg,
                      sys_adv_frequency = adv_frequency eeprom_cfg,
                      sys_adv_effect = adv_effect eeprom_cfg,
                      sys_adv_width = adv_width eeprom_cfg,
                      sys_adv_pace = adv_pace eeprom_cfg,
                      sys_favorite_mode = favorite_mode eeprom_cfg\<rparr>\<rparr>)
         else s\<lparr>system_config := config_set_defaults\<rparr>)"

section \<open>Bytecode modules (mode\_programs.c)\<close>







































section \<open>Register access through addresses (channel\_mem.c)\<close>

text \<open>
  What the bytecode interpreter can read and write: the two channel blocks and the
  scratch byte of channel\_mem.c, the state of the PRNG, and (read only) the knob value
  \<open>config_get()->multi_adjust\<close>.
\<close>

record interp_mem =
  channel_a :: ChannelBlock
  channel_b :: ChannelBlock
  scratch_byte :: u8
  prng_state :: u16
  ma_knob :: u8

text \<open>
  \<open>channel_get_reg_ptr\<close> returns a pointer into block B, into block A, or to the
  scratch byte, which it clears before handing it out.
\<close>

datatype reg_ptr = PtrA nat | PtrB nat | PtrScratch

definition channel_get_reg_ptr :: "u16 \<Rightarrow> interp_mem \<Rightarrow> reg_ptr \<times> interp_mem" where
  "channel_get_reg_ptr addr m =
     (if unat addr \<ge> CHAN_BASE_B \<and> unat addr < CHAN_BASE_B + CHAN_BLOCK_SIZE
      then (PtrB (unat addr - CHAN_BASE_B), m)
      else if unat addr \<ge> CHAN_BASE_A \<and> unat addr < CHAN_BASE_A + CHAN_BLOCK_SIZE
      then (PtrA (unat addr - CHAN_BASE_A), m)
      else (PtrScratch, m\<lparr>scratch_byte := 0\<rparr>))"

fun deref :: "reg_ptr \<Rightarrow> interp_mem \<Rightarrow> u8" where
  "deref (PtrA off) m = channel_a m ! off"
| "deref (PtrB off) m = channel_b m ! off"
| "deref PtrScratch m = scratch_byte m"

fun assign :: "reg_ptr \<Rightarrow> u8 \<Rightarrow> interp_mem \<Rightarrow> interp_mem" where
  "assign (PtrA off) v m = m\<lparr>channel_a := (channel_a m)[off := v]\<rparr>"
| "assign (PtrB off) v m = m\<lparr>channel_b := (channel_b m)[off := v]\<rparr>"
| "assign PtrScratch v m = m\<lparr>scratch_byte := v\<rparr>"

text \<open>\<open>*channel_get_reg_ptr(addr) = v\<close> and the value of \<open>*channel_get_reg_ptr(addr)\<close>.\<close>

definition reg_write :: "u16 \<Rightarrow> u8 \<Rightarrow> interp_mem \<Rightarrow> interp_mem" where
  "reg_write addr v m = (let (p, m) = channel_get_reg_ptr addr m in assign p v m)"

definition reg_read :: "u16 \<Rightarrow> interp_mem \<Rightarrow> u8 \<times> interp_mem" where
  "reg_read addr m = (let (p, m) = channel_get_reg_ptr addr m in (deref p m, m))"

section \<open>Pseudo-random numbers (prng.c)\<close>

definition prng_next16 :: "interp_mem \<Rightarrow> u16 \<times> interp_mem" where
  "prng_next16 m =
     (let st = (ucast ((ucast (prng_state m) :: u32) * 1103515245 + 12345) :: u16)
      in (st, m\<lparr>prng_state := st\<rparr>))"

definition prng_next :: "interp_mem \<Rightarrow> u8 \<times> interp_mem" where
  "prng_next m = (let (val, m) = prng_next16 m in (ucast (drop_bit 8 val), m))"

section \<open>Bytecode interpreter (execute\_module of mode\_dispatcher.c)\<close>

text \<open>
  \<open>apply_a\<close> and \<open>apply_b\<close> as MEMOP and MATHOP compute them from the address and
  \<open>channel_a.apply_channel\<close>.
\<close>

definition apply_flags :: "u16 \<Rightarrow> interp_mem \<Rightarrow> bool \<times> bool" where
  "apply_flags addr m =
     (if addr \<ge> 0x80 \<and> addr < 0xC0
      then (let ac = channel_a m ! OFF_apply_channel in (ac AND 0x01 \<noteq> 0, ac AND 0x02 \<noteq> 0))
      else if addr \<ge> 0x180 \<and> addr < 0x1C0 then (False, True)
      else (True, False))"

definition exec_copy :: "u8 list \<Rightarrow> nat \<Rightarrow> nat \<Rightarrow> u16 \<Rightarrow> interp_mem \<Rightarrow> interp_mem" where
  "exec_copy prog pc len addr m =
     fold (\<lambda>i. reg_write (addr + of_nat i) (prog ! (pc + 2 + i))) [0..<len] m"

definition exec_memop :: "u8 \<Rightarrow> u16 \<Rightarrow> interp_mem \<Rightarrow> interp_mem" where
  "exec_memop op addr m =
     (let (apply_a, apply_b) = apply_flags addr m;
          bank_addr_a = 0x08C;
          bank_addr_b = 0x18C
      in if op = 0
         then (let m = (if apply_a
                        then (let (v, m) = reg_read bank_addr_a m in reg_write addr v m)
                        else m)
               in if apply_b
                  then (let (v, m) = reg_read bank_addr_b m in reg_write (addr + 0x100) v m)
                  else m)
         else if op = 1
         then (let m = (if apply_a
                        then (let (v, m) = reg_read addr m in reg_write bank_addr_a v m)
                        else m)
               in if apply_b
                  then (let (v, m) = reg_read (addr + 0x100) m in reg_write bank_addr_b v m)
                  else m)
         else if op = 2
         then (let m = (if apply_a
                        then (let (v, m) = reg_read addr m in reg_write addr (drop_bit 1 v) m)
                        else m)
               in if apply_b
                  then (let (v, m) = reg_read (addr + 0x100) m
                        in reg_write (addr + 0x100) (drop_bit 1 v) m)
                  else m)
         else
           (let src_ch = (if addr AND 0x100 \<noteq> 0 then channel_b m else channel_a m);
                min_val = src_ch ! OFF_random_min;
                max_val = src_ch ! OFF_random_max;
                (rand_val, m) =
                  (if max_val > min_val
                   then (let range = (ucast max_val :: u16) - ucast min_val + 1;
                             (r, m) = prng_next m
                         in (min_val + ucast ((ucast r :: u16) mod range), m))
                   else (min_val, m));
                m = (if apply_a then reg_write addr rand_val m else m)
            in if apply_b then reg_write (addr + 0x100) rand_val m else m))"

definition math_op :: "u8 \<Rightarrow> u8 \<Rightarrow> u8 \<Rightarrow> u8" where
  "math_op op x v =
     (if op = 0 then x + v
      else if op = 1 then x AND v
      else if op = 2 then x OR v
      else x XOR v)"

definition exec_mathop :: "u8 \<Rightarrow> u16 \<Rightarrow> u8 \<Rightarrow> interp_mem \<Rightarrow> interp_mem" where
  "exec_mathop op addr v m =
     (let (apply_a, apply_b) = apply_flags addr m;
          m = (if apply_a
               then (let (x, m) = reg_read addr m in reg_write addr (math_op op x v) m)
               else m)
      in if apply_b \<and> addr \<ge> 0x80 \<and> addr < 0xC0
         then (let (x, m) = reg_read (addr + 0x100) m
               in reg_write (addr + 0x100) (math_op op x v) m)
         else m)"

definition exec_load_ma :: "interp_mem \<Rightarrow> interp_mem" where
  "exec_load_ma m =
     (let ma_raw = ma_knob m;
          ac = channel_a m ! OFF_apply_channel;
          m = (if ac AND 0x01 \<noteq> 0
               then reg_write 0x08C
                      (mode_dispatcher_map_ma ma_raw (channel_a m ! OFF_ma_range_high)
                         (channel_a m ! OFF_ma_range_low)) m
               else m)
      in if ac AND 0x02 \<noteq> 0
         then reg_write 0x18C
                (mode_dispatcher_map_ma ma_raw (channel_b m ! OFF_ma_range_high)
                   (channel_b m ! OFF_ma_range_low)) m
         else m)"

definition exec_set :: "u8 \<Rightarrow> u8 \<Rightarrow> interp_mem \<Rightarrow> interp_mem" where
  "exec_set opcode v m =
     (let offset = (ucast (opcode AND 0x3F) :: u16)
      in if opcode AND 0x40 \<noteq> 0 then reg_write (0x180 + offset) v m
         else (let ac = channel_a m ! OFF_apply_channel;
                   m = (if ac AND 0x01 \<noteq> 0 then reg_write (0x80 + offset) v m else m)
               in if ac AND 0x02 \<noteq> 0 then reg_write (0x180 + offset) v m else m))"

text \<open>
  One pass of the interpreter's \<open>while (1)\<close> loop at program counter \<open>pc\<close> of the
  module \<open>prog\<close>: the loop breaks (\<open>Halt\<close>), or continues at a new program counter with
  a new memory (\<open>Next\<close>). A module is a byte array in flash; a fetch of an opcode or of
  an operand beyond the end of the array reads whatever the linker placed there, which
  the model does not know: that is \<open>Fault\<close>.
\<close>

datatype step_result = Halt | Fault | Next nat interp_mem

definition copy_len :: "u8 \<Rightarrow> nat" where
  "copy_len opcode = 1 + unat (drop_bit 2 (opcode AND 0x1C))"

definition operand_addr :: "u8 \<Rightarrow> u8 \<Rightarrow> u16" where
  "operand_addr opcode addr_low = push_bit 8 (ucast (opcode AND 0x03)) OR ucast addr_low"

definition exec_instr :: "u8 list \<Rightarrow> nat \<Rightarrow> interp_mem \<Rightarrow> step_result" where
  "exec_instr prog pc m =
     (if pc \<ge> length prog then Fault
      else let opcode = prog ! pc
      in if opcode AND 0xE0 = 0x00 then Halt
         else if opcode AND 0xE0 = 0x20
         then (let len = copy_len opcode
               in if pc + 2 + len > length prog then Fault
                  else Next (pc + 2 + len)
                         (exec_copy prog pc len (operand_addr opcode (prog ! (pc + 1))) m))
         else if opcode AND 0xF0 = 0x40
         then (if pc + 2 > length prog then Fault
               else Next (pc + 2)
                      (exec_memop (drop_bit 2 (opcode AND 0x0C))
                         (operand_addr opcode (prog ! (pc + 1))) m))
         else if opcode AND 0xF0 = 0x50
         then (if pc + 3 > length prog then Fault
               else Next (pc + 3)
                      (exec_mathop (drop_bit 2 (opcode AND 0x0C))
                         (operand_addr opcode (prog ! (pc + 1))) (prog ! (pc + 2)) m))
         else if opcode = 0x60 then Next (pc + 1) (exec_load_ma m)
         else if opcode AND 0x80 \<noteq> 0
         then (if pc + 2 > length prog then Fault
               else Next (pc + 2) (exec_set opcode (prog ! (pc + 1)) m))
         else if opcode AND 0x10 \<noteq> 0 then Next (pc + 2) m
         else Next (pc + 1) m)"

text \<open>
  The loop. Every instruction moves the program counter forward while it is inside the
  array, which is the termination argument. \<open>None\<close> is a fetch beyond the module's
  array.
\<close>

function run_module :: "u8 list \<Rightarrow> nat \<Rightarrow> interp_mem \<Rightarrow> interp_mem option" where
  "run_module prog pc m =
     (case exec_instr prog pc m of
        Halt \<Rightarrow> Some m
      | Fault \<Rightarrow> None
      | Next pc' m' \<Rightarrow> run_module prog pc' m')"
  by pat_completeness auto
termination
  by (relation "measure (\<lambda>(prog, pc, m). length prog - pc)")
     (auto simp: exec_instr_def copy_len_def Let_def split: if_splits)

declare run_module.simps [simp del]







text \<open>
  The two channel blocks as bytecode and the serial protocol see them: the byte at an
  address of block A (\<open>0x080\<close> to \<open>0x0BF\<close>) or block B (\<open>0x180\<close> to \<open>0x1BF\<close>), and
  nothing at any other address.
\<close>

definition block_byte :: "interp_mem \<Rightarrow> nat \<Rightarrow> u8 option" where
  "block_byte m a =
     (if CHAN_BASE_A \<le> a \<and> a < CHAN_BASE_A + CHAN_BLOCK_SIZE
      then Some (channel_a m ! (a - CHAN_BASE_A))
      else if CHAN_BASE_B \<le> a \<and> a < CHAN_BASE_B + CHAN_BLOCK_SIZE
      then Some (channel_b m ! (a - CHAN_BASE_B))
      else None)"

definition blocks_sized :: "interp_mem \<Rightarrow> bool" where
  "blocks_sized m =
     (length (channel_a m) = CHAN_BLOCK_SIZE \<and> length (channel_b m) = CHAN_BLOCK_SIZE)"

text \<open>
  The COPY format as the specification words it: \<open>001llaaa\<close>, a two-bit length field
  \<open>ll\<close> (bits 4 and 3) and a three-bit address-high field \<open>aaa\<close> (bits 2 to 0); the
  instruction writes \<open>l + 1\<close> bytes starting at \<open>(aaa << 8) | addr_low\<close> and is
  \<open>2 + (l + 1)\<close> bytes long.
\<close>

definition spec_copy_count :: "u8 \<Rightarrow> nat" where
  "spec_copy_count opcode = unat (drop_bit 3 opcode AND 0x03) + 1"

definition spec_copy_start :: "u8 \<Rightarrow> u8 \<Rightarrow> nat" where
  "spec_copy_start opcode addr_low = unat (opcode AND 0x07) * 256 + unat addr_low"

definition spec_copy_size :: "u8 \<Rightarrow> nat" where
  "spec_copy_size opcode = 2 + spec_copy_count opcode"

section \<open>User programs (user\_programs.c)\<close>

definition USER_PROG_SLOT_SIZE :: nat where "USER_PROG_SLOT_SIZE = 32"

text \<open>\<open>prog_cache[slot][i]\<close> is \<open>cache slot i\<close>.\<close>

type_synonym prog_cache_t = "nat \<Rightarrow> nat \<Rightarrow> u8"





section \<open>Mode dispatcher (mode\_dispatcher.c)\<close>










text \<open>
  The statics of param\_engine.c and mode\_dispatcher.c, the globally visible output
  flags, the user program cache, the pulse generator and the two DAC outputs.
\<close>

record engine =
  mem :: interp_mem
  prog_cache :: prog_cache_t
  tick_counter :: u8
  master_timer :: u16
  pending_module_a :: u8
  pending_module_b :: u8
  dir_flags_a :: u8
  dir_flags_b :: u8
  gate_phase_a :: u8
  gate_timer_a :: u8
  gate_phase_b :: u8
  gate_timer_b :: u8
  current_mode :: u8
  split_mode_a :: u8
  split_mode_b :: u8
  dispatcher_paused :: u8
  r1_target :: u16
  g_output_control_flags :: u8
  pulse :: PulseGen
  dac_a :: u16
  dac_b :: u16

definition DAC_MAX_VALUE :: u16 where "DAC_MAX_VALUE = 1023"







text \<open>
  The engine as \<open>setup()\<close> leaves it before the first mode is selected, with an erased
  EEPROM (no user programs), the knob at its lowest position, and the dispatcher, the
  parameter engine, the pulse generator and the DAC initialised.
\<close>

definition power_on_engine :: engine where
  "power_on_engine =
     \<lparr>mem = \<lparr>channel_a = channel_defaults, channel_b = channel_defaults, scratch_byte = 0,
              prng_state = 0xACE1, ma_knob = 0\<rparr>,
      prog_cache = (\<lambda>slot i. 0xFF),
      tick_counter = 0, master_timer = 0, pending_module_a = 0xFF, pending_module_b = 0xFF,
      dir_flags_a = 0, dir_flags_b = 0, gate_phase_a = 0, gate_timer_a = 0,
      gate_phase_b = 0, gate_timer_b = 0,
      current_mode = MODE_WAVES, split_mode_a = MODE_WAVES, split_mode_b = MODE_WAVES,
      dispatcher_paused = 0, r1_target = 0, g_output_control_flags = 0,
      pulse = pulse_gen_init, dac_a = DAC_MAX_VALUE, dac_b = DAC_MAX_VALUE\<rparr>"

section \<open>Properties of the pulse generator\<close>

subsection \<open>Word arithmetic\<close>

lemma unat_u8_lt: "unat (w::u8) < 256"
  using unsigned_less [of w, where 'a = nat] by simp

lemma unat_u16_lt: "unat (w::u16) < 65536"
  using unsigned_less [of w, where 'a = nat] by simp

lemma unat_ucast_8_16: "unat (ucast (w::u8) :: u16) = unat w"
  using unat_u8_lt [of w] by (simp add: unsigned_ucast_eq take_bit_nat_eq_self)

lemma unat_used: "unat ((ucast (w::u8) :: u16) * 2 + DEAD_TIME_TICKS * 2) = 2 * unat w + 8"
  using unat_u8_lt [of w]
  by (simp add: unat_word_ariths unat_ucast_8_16 DEAD_TIME_TICKS_def)

lemma gap_small: "unat p \<le> 2 * unat w + 8 \<Longrightarrow> deadtime2_gap w p = DEAD_TIME_TICKS"
  by (simp add: deadtime2_gap_def Let_def word_less_nat_alt unat_used)

lemma gap_big: "2 * unat w + 8 < unat p \<Longrightarrow> unat (deadtime2_gap w p) = unat p - (2 * unat w + 8)"
  using unat_used [of w]
  by (simp add: deadtime2_gap_def Let_def word_less_nat_alt unat_sub word_le_nat_alt)

lemma gap_pos: "0 < unat (deadtime2_gap w p)"
  using gap_small [of p w] gap_big [of w p]
  by (cases "unat p \<le> 2 * unat w + 8") (simp_all add: DEAD_TIME_TICKS_def)

lemma loop_width_us_unat: "unat (loop_width_us w) = (70 + unat w * 180) div 256"
proof -
  have a: "unat (70 + (ucast w :: u16) * 180) = 70 + unat w * 180"
    using unat_u8_lt [of w] by (simp add: unat_word_ariths unat_ucast_8_16)
  have b: "(70 + unat w * 180) div 256 < 256"
    using unat_u8_lt [of w] by simp
  show ?thesis
    unfolding loop_width_us_def
    using b by (simp add: unsigned_ucast_eq drop_bit_eq_div unat_div a take_bit_nat_eq_self)
qed

lemma latch_phase: "phase (latch_pending c) = phase c" "gate (latch_pending c) = gate c"
  by (simp_all add: latch_pending_def)

lemma isr_a_keeps_active:
  "phase c \<noteq> PH_GAP \<Longrightarrow>
     width_ticks (TIMER1_COMPA_vect c) = width_ticks c \<and>
     period_ticks (TIMER1_COMPA_vect c) = period_ticks c \<and>
     params_dirty (TIMER1_COMPA_vect c) = params_dirty c \<and>
     pending_width (TIMER1_COMPA_vect c) = pending_width c \<and>
     pending_period (TIMER1_COMPA_vect c) = pending_period c"
  by (cases "phase c")
     (simp_all add: TIMER1_COMPA_vect_def ch_all_off_def ch_negative_def Let_def)

lemma isr_b_keeps_active:
  "phase c \<noteq> PH_GAP \<Longrightarrow>
     width_ticks (TIMER2_COMP_vect c) = width_ticks c \<and>
     period_ticks (TIMER2_COMP_vect c) = period_ticks c \<and>
     params_dirty (TIMER2_COMP_vect c) = params_dirty c \<and>
     pending_width (TIMER2_COMP_vect c) = pending_width c \<and>
     pending_period (TIMER2_COMP_vect c) = pending_period c"
  by (cases "phase c")
     (simp_all add: TIMER2_COMP_vect_def ch_all_off_def ch_negative_def Let_def)

lemma fg_a_keeps: "e \<noteq> ISR \<Longrightarrow>
   width_ticks (step_a e c) = width_ticks c \<and> period_ticks (step_a e c) = period_ticks c
   \<and> phase (step_a e c) = phase c \<and> gap_remaining (step_a e c) = gap_remaining c \<and> ocr (step_a e c) = ocr c"
  by (cases e) (simp_all add: pulse_set_width_def pulse_set_frequency_def pulse_set_gate_def Let_def)

lemma fg_b_keeps: "e \<noteq> ISR \<Longrightarrow>
   width_ticks (step_b e c) = width_ticks c \<and> period_ticks (step_b e c) = period_ticks c
   \<and> phase (step_b e c) = phase c \<and> gap_remaining (step_b e c) = gap_remaining c \<and> ocr (step_b e c) = ocr c"
  by (cases e) (simp_all add: pulse_set_width_def pulse_set_frequency_def pulse_set_gate_def Let_def)


lemma isr_count_Cons: "isr_count (e # es) = (if e = ISR then Suc (isr_count es) else isr_count es)"
  by (simp add: isr_count_def)

lemma isr_count_Nil: "isr_count [] = 0"
  by (simp add: isr_count_def)

lemma quiet_a:
  "isr_count evs = 0 \<Longrightarrow>
     isr_log step_a evs c = [] \<and>
     width_ticks (run_events step_a evs c) = width_ticks c \<and>
     period_ticks (run_events step_a evs c) = period_ticks c \<and>
     gap_remaining (run_events step_a evs c) = gap_remaining c"
proof (induction evs arbitrary: c)
  case Nil
  show ?case by simp
next
  case (Cons e es)
  from Cons.prems have ne: "e \<noteq> ISR" and z: "isr_count es = 0"
    by (auto simp: isr_count_Cons split: if_splits)
  show ?case using Cons.IH [OF z, of "step_a e c"] fg_a_keeps [OF ne, of c] ne by simp
qed

lemma from_dt2_a:
  "phase c = PH_DEADTIME2 \<Longrightarrow> isr_count evs = 1 \<Longrightarrow>
     isr_log step_a evs c = [(PH_GAP, deadtime2_gap (width_ticks c) (period_ticks c))] \<and>
     width_ticks (run_events step_a evs c) = width_ticks c \<and>
     period_ticks (run_events step_a evs c) = period_ticks c"
proof (induction evs arbitrary: c)
  case Nil
  then show ?case by (simp add: isr_count_Nil)
next
  case (Cons e es)
  show ?case
  proof (cases "e = ISR")
    case True
    with Cons.prems have z: "isr_count es = 0" by (simp add: isr_count_Cons)
    show ?thesis using True Cons.prems(1) quiet_a [OF z, of "TIMER1_COMPA_vect c"]
      by (simp add: TIMER1_COMPA_vect_def Let_def)
  next
    case False
    with Cons.prems have k: "isr_count es = 1" by (simp add: isr_count_Cons)
    show ?thesis
      using False Cons.IH [OF _ k, of "step_a e c"] fg_a_keeps [OF False, of c] Cons.prems(1)
      by simp
  qed
qed

lemma from_neg_a:
  "phase c = PH_NEGATIVE \<Longrightarrow> isr_count evs = 2 \<Longrightarrow>
     isr_log step_a evs c =
       [(PH_DEADTIME2, DEAD_TIME_TICKS),
        (PH_GAP, deadtime2_gap (width_ticks c) (period_ticks c))] \<and>
     width_ticks (run_events step_a evs c) = width_ticks c \<and>
     period_ticks (run_events step_a evs c) = period_ticks c"
proof (induction evs arbitrary: c)
  case Nil
  then show ?case by (simp add: isr_count_Nil)
next
  case (Cons e es)
  show ?case
  proof (cases "e = ISR")
    case True
    with Cons.prems have z: "isr_count es = 1" by (simp add: isr_count_Cons)
    have ph: "phase (TIMER1_COMPA_vect c) = PH_DEADTIME2"
      using Cons.prems(1) by (simp add: TIMER1_COMPA_vect_def ch_all_off_def)
    show ?thesis using True Cons.prems(1) from_dt2_a [OF ph z]
      by (simp add: TIMER1_COMPA_vect_def ch_all_off_def)
  next
    case False
    with Cons.prems have k: "isr_count es = 2" by (simp add: isr_count_Cons)
    show ?thesis
      using False Cons.IH [OF _ k, of "step_a e c"] fg_a_keeps [OF False, of c] Cons.prems(1)
      by simp
  qed
qed

lemma from_dt1_a:
  "phase c = PH_DEADTIME1 \<Longrightarrow> isr_count evs = 3 \<Longrightarrow>
     isr_log step_a evs c =
       [(PH_NEGATIVE, ucast (width_ticks c)),
        (PH_DEADTIME2, DEAD_TIME_TICKS),
        (PH_GAP, deadtime2_gap (width_ticks c) (period_ticks c))] \<and>
     width_ticks (run_events step_a evs c) = width_ticks c \<and>
     period_ticks (run_events step_a evs c) = period_ticks c"
proof (induction evs arbitrary: c)
  case Nil
  then show ?case by (simp add: isr_count_Nil)
next
  case (Cons e es)
  show ?case
  proof (cases "e = ISR")
    case True
    with Cons.prems have z: "isr_count es = 2" by (simp add: isr_count_Cons)
    have ph: "phase (TIMER1_COMPA_vect c) = PH_NEGATIVE"
      using Cons.prems(1) by (simp add: TIMER1_COMPA_vect_def ch_negative_def)
    show ?thesis using True Cons.prems(1) from_neg_a [OF ph z]
      by (simp add: TIMER1_COMPA_vect_def ch_negative_def)
  next
    case False
    with Cons.prems have k: "isr_count es = 3" by (simp add: isr_count_Cons)
    show ?thesis
      using False Cons.IH [OF _ k, of "step_a e c"] fg_a_keeps [OF False, of c] Cons.prems(1)
      by simp
  qed
qed

lemma from_pos_a:
  "phase c = PH_POSITIVE \<Longrightarrow> isr_count evs = 4 \<Longrightarrow>
     isr_log step_a evs c =
       [(PH_DEADTIME1, DEAD_TIME_TICKS),
        (PH_NEGATIVE, ucast (width_ticks c)),
        (PH_DEADTIME2, DEAD_TIME_TICKS),
        (PH_GAP, deadtime2_gap (width_ticks c) (period_ticks c))] \<and>
     width_ticks (run_events step_a evs c) = width_ticks c \<and>
     period_ticks (run_events step_a evs c) = period_ticks c"
proof (induction evs arbitrary: c)
  case Nil
  then show ?case by (simp add: isr_count_Nil)
next
  case (Cons e es)
  show ?case
  proof (cases "e = ISR")
    case True
    with Cons.prems have z: "isr_count es = 3" by (simp add: isr_count_Cons)
    have ph: "phase (TIMER1_COMPA_vect c) = PH_DEADTIME1"
      using Cons.prems(1) by (simp add: TIMER1_COMPA_vect_def ch_all_off_def)
    show ?thesis using True Cons.prems(1) from_dt1_a [OF ph z]
      by (simp add: TIMER1_COMPA_vect_def ch_all_off_def)
  next
    case False
    with Cons.prems have k: "isr_count es = 4" by (simp add: isr_count_Cons)
    show ?thesis
      using False Cons.IH [OF _ k, of "step_a e c"] fg_a_keeps [OF False, of c] Cons.prems(1)
      by simp
  qed
qed

lemma enter_pos_a:
  "phase (TIMER1_COMPA_vect c) = PH_POSITIVE \<Longrightarrow>
     phase c = PH_GAP \<and> ocr (TIMER1_COMPA_vect c) = ucast (width_ticks (TIMER1_COMPA_vect c))"
  by (cases "phase c")
     (simp_all add: TIMER1_COMPA_vect_def ch_all_off_def ch_negative_def ch_positive_def
        latch_phase Let_def split: if_splits)

lemma cycle_a:
  "isr_count evs = 5 \<Longrightarrow> isr_log step_a evs c = (PH_POSITIVE, d) # rest \<Longrightarrow>
     d = ucast (width_ticks (run_events step_a evs c)) \<and>
     rest = [(PH_DEADTIME1, DEAD_TIME_TICKS),
             (PH_NEGATIVE, ucast (width_ticks (run_events step_a evs c))),
             (PH_DEADTIME2, DEAD_TIME_TICKS),
             (PH_GAP, deadtime2_gap (width_ticks (run_events step_a evs c))
                        (period_ticks (run_events step_a evs c)))]"
proof (induction evs arbitrary: c)
  case Nil
  then show ?case by (simp add: isr_count_Nil)
next
  case (Cons e es)
  show ?case
  proof (cases "e = ISR")
    case True
    with Cons.prems have z: "isr_count es = 4" by (simp add: isr_count_Cons)
    from True Cons.prems(2) have ph: "phase (TIMER1_COMPA_vect c) = PH_POSITIVE"
      and d: "d = ocr (TIMER1_COMPA_vect c)"
      and r: "rest = isr_log step_a es (TIMER1_COMPA_vect c)" by simp_all
    show ?thesis using True from_pos_a [OF ph z] enter_pos_a [OF ph] d r by simp
  next
    case False
    with Cons.prems have k: "isr_count es = 5" by (simp add: isr_count_Cons)
    from False Cons.prems(2) have l: "isr_log step_a es (step_a e c) = (PH_POSITIVE, d) # rest"
      by simp
    show ?thesis using Cons.IH [OF k l] by simp
  qed
qed


lemma ucast_low_byte: "gap \<le> 250 \<Longrightarrow> ucast (ucast (gap::u16) :: u8) = gap"
proof -
  assume "gap \<le> 250"
  then have "unat gap < 256" by (simp add: word_le_nat_alt)
  then have "unat (ucast (ucast gap :: u8) :: u16) = unat gap"
    by (simp add: unsigned_ucast_eq unsigned_take_bit_eq take_bit_nat_eq_self)
  then show ?thesis by (simp only: word_unat_eq_iff)
qed

lemma quiet_b:
  "isr_count evs = 0 \<Longrightarrow>
     isr_log step_b evs c = [] \<and>
     width_ticks (run_events step_b evs c) = width_ticks c \<and>
     period_ticks (run_events step_b evs c) = period_ticks c \<and>
     gap_remaining (run_events step_b evs c) = gap_remaining c"
proof (induction evs arbitrary: c)
  case Nil
  show ?case by simp
next
  case (Cons e es)
  from Cons.prems have ne: "e \<noteq> ISR" and z: "isr_count es = 0"
    by (auto simp: isr_count_Cons split: if_splits)
  show ?case using Cons.IH [OF z, of "step_b e c"] fg_b_keeps [OF ne, of c] ne by simp
qed

lemma from_dt2_b:
  "phase c = PH_DEADTIME2 \<Longrightarrow> isr_count evs = 1 \<Longrightarrow>
     isr_log step_b evs c = [(PH_GAP, first_chunk (deadtime2_gap (width_ticks c) (period_ticks c)))] \<and>
     width_ticks (run_events step_b evs c) = width_ticks c \<and>
     period_ticks (run_events step_b evs c) = period_ticks c \<and>
     gap_remaining (run_events step_b evs c) =
       deadtime2_gap (width_ticks c) (period_ticks c) -
       first_chunk (deadtime2_gap (width_ticks c) (period_ticks c))"
proof (induction evs arbitrary: c)
  case Nil
  then show ?case by (simp add: isr_count_Nil)
next
  case (Cons e es)
  show ?case
  proof (cases "e = ISR")
    case True
    with Cons.prems have z: "isr_count es = 0" by (simp add: isr_count_Cons)
    show ?thesis using True Cons.prems(1) quiet_b [OF z, of "TIMER2_COMP_vect c"]
      by (simp add: TIMER2_COMP_vect_def Let_def first_chunk_def ucast_low_byte)
  next
    case False
    with Cons.prems have k: "isr_count es = 1" by (simp add: isr_count_Cons)
    show ?thesis
      using False Cons.IH [OF _ k, of "step_b e c"] fg_b_keeps [OF False, of c] Cons.prems(1)
      by simp
  qed
qed

lemma from_neg_b:
  "phase c = PH_NEGATIVE \<Longrightarrow> isr_count evs = 2 \<Longrightarrow>
     isr_log step_b evs c =
       [(PH_DEADTIME2, DEAD_TIME_TICKS),
        (PH_GAP, first_chunk (deadtime2_gap (width_ticks c) (period_ticks c)))] \<and>
     width_ticks (run_events step_b evs c) = width_ticks c \<and>
     period_ticks (run_events step_b evs c) = period_ticks c \<and>
     gap_remaining (run_events step_b evs c) =
       deadtime2_gap (width_ticks c) (period_ticks c) -
       first_chunk (deadtime2_gap (width_ticks c) (period_ticks c))"
proof (induction evs arbitrary: c)
  case Nil
  then show ?case by (simp add: isr_count_Nil)
next
  case (Cons e es)
  show ?case
  proof (cases "e = ISR")
    case True
    with Cons.prems have z: "isr_count es = 1" by (simp add: isr_count_Cons)
    have ph: "phase (TIMER2_COMP_vect c) = PH_DEADTIME2"
      using Cons.prems(1) by (simp add: TIMER2_COMP_vect_def ch_all_off_def)
    show ?thesis using True Cons.prems(1) from_dt2_b [OF ph z]
      by (simp add: TIMER2_COMP_vect_def ch_all_off_def)
  next
    case False
    with Cons.prems have k: "isr_count es = 2" by (simp add: isr_count_Cons)
    show ?thesis
      using False Cons.IH [OF _ k, of "step_b e c"] fg_b_keeps [OF False, of c] Cons.prems(1)
      by simp
  qed
qed

lemma from_dt1_b:
  "phase c = PH_DEADTIME1 \<Longrightarrow> isr_count evs = 3 \<Longrightarrow>
     isr_log step_b evs c =
       [(PH_NEGATIVE, ucast (width_ticks c)),
        (PH_DEADTIME2, DEAD_TIME_TICKS),
        (PH_GAP, first_chunk (deadtime2_gap (width_ticks c) (period_ticks c)))] \<and>
     width_ticks (run_events step_b evs c) = width_ticks c \<and>
     period_ticks (run_events step_b evs c) = period_ticks c \<and>
     gap_remaining (run_events step_b evs c) =
       deadtime2_gap (width_ticks c) (period_ticks c) -
       first_chunk (deadtime2_gap (width_ticks c) (period_ticks c))"
proof (induction evs arbitrary: c)
  case Nil
  then show ?case by (simp add: isr_count_Nil)
next
  case (Cons e es)
  show ?case
  proof (cases "e = ISR")
    case True
    with Cons.prems have z: "isr_count es = 2" by (simp add: isr_count_Cons)
    have ph: "phase (TIMER2_COMP_vect c) = PH_NEGATIVE"
      using Cons.prems(1) by (simp add: TIMER2_COMP_vect_def ch_negative_def)
    show ?thesis using True Cons.prems(1) from_neg_b [OF ph z]
      by (simp add: TIMER2_COMP_vect_def ch_negative_def)
  next
    case False
    with Cons.prems have k: "isr_count es = 3" by (simp add: isr_count_Cons)
    show ?thesis
      using False Cons.IH [OF _ k, of "step_b e c"] fg_b_keeps [OF False, of c] Cons.prems(1)
      by simp
  qed
qed

lemma from_pos_b:
  "phase c = PH_POSITIVE \<Longrightarrow> isr_count evs = 4 \<Longrightarrow>
     isr_log step_b evs c =
       [(PH_DEADTIME1, DEAD_TIME_TICKS),
        (PH_NEGATIVE, ucast (width_ticks c)),
        (PH_DEADTIME2, DEAD_TIME_TICKS),
        (PH_GAP, first_chunk (deadtime2_gap (width_ticks c) (period_ticks c)))] \<and>
     width_ticks (run_events step_b evs c) = width_ticks c \<and>
     period_ticks (run_events step_b evs c) = period_ticks c \<and>
     gap_remaining (run_events step_b evs c) =
       deadtime2_gap (width_ticks c) (period_ticks c) -
       first_chunk (deadtime2_gap (width_ticks c) (period_ticks c))"
proof (induction evs arbitrary: c)
  case Nil
  then show ?case by (simp add: isr_count_Nil)
next
  case (Cons e es)
  show ?case
  proof (cases "e = ISR")
    case True
    with Cons.prems have z: "isr_count es = 3" by (simp add: isr_count_Cons)
    have ph: "phase (TIMER2_COMP_vect c) = PH_DEADTIME1"
      using Cons.prems(1) by (simp add: TIMER2_COMP_vect_def ch_all_off_def)
    show ?thesis using True Cons.prems(1) from_dt1_b [OF ph z]
      by (simp add: TIMER2_COMP_vect_def ch_all_off_def)
  next
    case False
    with Cons.prems have k: "isr_count es = 4" by (simp add: isr_count_Cons)
    show ?thesis
      using False Cons.IH [OF _ k, of "step_b e c"] fg_b_keeps [OF False, of c] Cons.prems(1)
      by simp
  qed
qed

lemma enter_pos_b:
  "phase (TIMER2_COMP_vect c) = PH_POSITIVE \<Longrightarrow>
     phase c = PH_GAP \<and> ocr (TIMER2_COMP_vect c) = ucast (width_ticks (TIMER2_COMP_vect c))"
  by (cases "phase c")
     (simp_all add: TIMER2_COMP_vect_def ch_all_off_def ch_negative_def ch_positive_def
        latch_phase Let_def split: if_splits)

lemma cycle_b:
  "isr_count evs = 5 \<Longrightarrow> isr_log step_b evs c = (PH_POSITIVE, d) # rest \<Longrightarrow>
     d = ucast (width_ticks (run_events step_b evs c)) \<and>
     rest = [(PH_DEADTIME1, DEAD_TIME_TICKS),
             (PH_NEGATIVE, ucast (width_ticks (run_events step_b evs c))),
             (PH_DEADTIME2, DEAD_TIME_TICKS),
             (PH_GAP, first_chunk (deadtime2_gap (width_ticks (run_events step_b evs c))
                        (period_ticks (run_events step_b evs c))))] \<and>
     gap_remaining (run_events step_b evs c) =
       deadtime2_gap (width_ticks (run_events step_b evs c))
         (period_ticks (run_events step_b evs c)) -
       first_chunk (deadtime2_gap (width_ticks (run_events step_b evs c))
         (period_ticks (run_events step_b evs c)))"
proof (induction evs arbitrary: c)
  case Nil
  then show ?case by (simp add: isr_count_Nil)
next
  case (Cons e es)
  show ?case
  proof (cases "e = ISR")
    case True
    with Cons.prems have z: "isr_count es = 4" by (simp add: isr_count_Cons)
    from True Cons.prems(2) have ph: "phase (TIMER2_COMP_vect c) = PH_POSITIVE"
      and d: "d = ocr (TIMER2_COMP_vect c)"
      and r: "rest = isr_log step_b es (TIMER2_COMP_vect c)" by simp_all
    show ?thesis using True from_pos_b [OF ph z] enter_pos_b [OF ph] d r by simp
  next
    case False
    with Cons.prems have k: "isr_count es = 5" by (simp add: isr_count_Cons)
    from False Cons.prems(2) have l: "isr_log step_b es (step_b e c) = (PH_POSITIVE, d) # rest"
      by simp
    show ?thesis using Cons.IH [OF k l] by simp
  qed
qed



subsection \<open>Claims about the pulse generator and the output copy\<close>

text \<open>
  C1. The claim: on every foreground pass the width submitted for a channel is
  \<open>70 + (width_value * 180 / 256)\<close>, between 70 and 249. The code shifts the whole
  sum: it computes \<open>(70 + width_value * 180) >> 8\<close> (see \<open>loop_width_us_unat\<close>), which is
  at most 179. At \<open>width_value = 255\<close> the width passed to \<open>pulse_set_width_a\<close> and
  \<open>pulse_set_width_b\<close> and stored as pending is 179, where the claim says 249.
\<close>

theorem loop_width_at_255:
  "loop_width_us 255 = 179 \<and>
   pending_width (pulse_ch_a (loop_output_copy (channel_defaults[OFF_WIDTH := 255])
      (channel_defaults[OFF_WIDTH := 255]) True pulse_gen_init)) = 179 \<and>
   pending_width (pulse_ch_b (loop_output_copy (channel_defaults[OFF_WIDTH := 255])
      (channel_defaults[OFF_WIDTH := 255]) True pulse_gen_init)) = 179 \<and>
   70 + (255 * 180) div 256 = (249::nat)"
  by (simp add: loop_output_copy_def Let_def pulse_set_width_a_def pulse_set_width_b_def
      pulse_set_frequency_a_def pulse_set_frequency_b_def pulse_set_gate_a_def
      pulse_set_gate_b_def pulse_set_width_def pulse_set_frequency_def pulse_set_gate_def
      loop_width_us_def width_value_def OFF_WIDTH_def channel_defaults_def)

text \<open>
  C2. The claim: the submission functions clamp the width into [20, 255], so an input
  below 20 is stored as 20 and an input of 20 or more is stored as it is. The code's
  floor is 70: the inputs 10, 20 and 69 are all stored as 70, on both channels.
\<close>

theorem pulse_set_width_floor_is_70:
  "pending_width (pulse_ch_a (pulse_set_width_a 10 pulse_gen_init)) = 70 \<and>
   pending_width (pulse_ch_a (pulse_set_width_a 20 pulse_gen_init)) = 70 \<and>
   pending_width (pulse_ch_a (pulse_set_width_a 69 pulse_gen_init)) = 70 \<and>
   pending_width (pulse_ch_b (pulse_set_width_b 10 pulse_gen_init)) = 70 \<and>
   pending_width (pulse_ch_b (pulse_set_width_b 20 pulse_gen_init)) = 70 \<and>
   pending_width (pulse_ch_b (pulse_set_width_b 69 pulse_gen_init)) = 70"
  by (simp add: pulse_set_width_a_def pulse_set_width_b_def pulse_set_width_def)

text \<open>
  C3. For both channels the ISR copies the pending width and period into the active
  slots and clears the dirty flag in the GAP phase (first conjunct) and in no other
  phase (second conjunct). Consequently, for any interleaving of foreground submissions
  with ISR firings: whenever five consecutive ISR firings start with the entry into
  POSITIVE, the POSITIVE and the NEGATIVE phase are loaded with the same width, the two
  dead times are \<open>DEAD_TIME_TICKS\<close>, and the gap is computed from that width and one
  period, which are the active values of the whole cycle, whatever the foreground
  submitted in between. On channel B the gap is loaded in chunks of the 8-bit timer.
\<close>

theorem pulse_handoff_atomic:
  "(phase g = PH_GAP \<and> params_dirty g \<noteq> 0 \<and> gap_remaining g = 0 \<longrightarrow>
      width_ticks (TIMER1_COMPA_vect g) = pending_width g \<and>
      period_ticks (TIMER1_COMPA_vect g) = pending_period g \<and>
      params_dirty (TIMER1_COMPA_vect g) = 0 \<and>
      width_ticks (TIMER2_COMP_vect g) = pending_width g \<and>
      period_ticks (TIMER2_COMP_vect g) = pending_period g \<and>
      params_dirty (TIMER2_COMP_vect g) = 0) \<and>
   (phase c \<noteq> PH_GAP \<longrightarrow>
      width_ticks (TIMER1_COMPA_vect c) = width_ticks c \<and>
      period_ticks (TIMER1_COMPA_vect c) = period_ticks c \<and>
      params_dirty (TIMER1_COMPA_vect c) = params_dirty c \<and>
      width_ticks (TIMER2_COMP_vect c) = width_ticks c \<and>
      period_ticks (TIMER2_COMP_vect c) = period_ticks c \<and>
      params_dirty (TIMER2_COMP_vect c) = params_dirty c) \<and>
   (isr_count evs_a = 5 \<and> isr_log step_a evs_a s_a = (PH_POSITIVE, d_a) # rest_a \<longrightarrow>
      d_a = ucast (width_ticks (run_events step_a evs_a s_a)) \<and>
      rest_a =
        [(PH_DEADTIME1, DEAD_TIME_TICKS),
         (PH_NEGATIVE, ucast (width_ticks (run_events step_a evs_a s_a))),
         (PH_DEADTIME2, DEAD_TIME_TICKS),
         (PH_GAP, deadtime2_gap (width_ticks (run_events step_a evs_a s_a))
                    (period_ticks (run_events step_a evs_a s_a)))]) \<and>
   (isr_count evs_b = 5 \<and> isr_log step_b evs_b s_b = (PH_POSITIVE, d_b) # rest_b \<longrightarrow>
      d_b = ucast (width_ticks (run_events step_b evs_b s_b)) \<and>
      rest_b =
        [(PH_DEADTIME1, DEAD_TIME_TICKS),
         (PH_NEGATIVE, ucast (width_ticks (run_events step_b evs_b s_b))),
         (PH_DEADTIME2, DEAD_TIME_TICKS),
         (PH_GAP, first_chunk (deadtime2_gap (width_ticks (run_events step_b evs_b s_b))
                    (period_ticks (run_events step_b evs_b s_b))))] \<and>
      gap_remaining (run_events step_b evs_b s_b) =
        deadtime2_gap (width_ticks (run_events step_b evs_b s_b))
          (period_ticks (run_events step_b evs_b s_b)) -
        first_chunk (deadtime2_gap (width_ticks (run_events step_b evs_b s_b))
          (period_ticks (run_events step_b evs_b s_b))))"
proof (intro conjI impI)
  assume h: "phase g = PH_GAP \<and> params_dirty g \<noteq> 0 \<and> gap_remaining g = 0"
  then show "width_ticks (TIMER1_COMPA_vect g) = pending_width g"
    and "period_ticks (TIMER1_COMPA_vect g) = pending_period g"
    and "params_dirty (TIMER1_COMPA_vect g) = 0"
    by (simp_all add: TIMER1_COMPA_vect_def latch_pending_def ch_all_off_def ch_positive_def
        Let_def)
  from h show "width_ticks (TIMER2_COMP_vect g) = pending_width g"
    and "period_ticks (TIMER2_COMP_vect g) = pending_period g"
    and "params_dirty (TIMER2_COMP_vect g) = 0"
    by (simp_all add: TIMER2_COMP_vect_def latch_pending_def ch_all_off_def ch_positive_def
        Let_def)
next
  assume h: "phase c \<noteq> PH_GAP"
  from isr_a_keeps_active [OF h]
  show "width_ticks (TIMER1_COMPA_vect c) = width_ticks c"
    and "period_ticks (TIMER1_COMPA_vect c) = period_ticks c"
    and "params_dirty (TIMER1_COMPA_vect c) = params_dirty c" by simp_all
  from isr_b_keeps_active [OF h]
  show "width_ticks (TIMER2_COMP_vect c) = width_ticks c"
    and "period_ticks (TIMER2_COMP_vect c) = period_ticks c"
    and "params_dirty (TIMER2_COMP_vect c) = params_dirty c" by simp_all
next
  assume h: "isr_count evs_a = 5 \<and> isr_log step_a evs_a s_a = (PH_POSITIVE, d_a) # rest_a"
  from cycle_a [of evs_a s_a d_a rest_a] h
  show "d_a = ucast (width_ticks (run_events step_a evs_a s_a))"
    and "rest_a =
        [(PH_DEADTIME1, DEAD_TIME_TICKS),
         (PH_NEGATIVE, ucast (width_ticks (run_events step_a evs_a s_a))),
         (PH_DEADTIME2, DEAD_TIME_TICKS),
         (PH_GAP, deadtime2_gap (width_ticks (run_events step_a evs_a s_a))
                    (period_ticks (run_events step_a evs_a s_a)))]"
    by simp_all
next
  assume h: "isr_count evs_b = 5 \<and> isr_log step_b evs_b s_b = (PH_POSITIVE, d_b) # rest_b"
  from cycle_b [of evs_b s_b d_b rest_b] h
  show "d_b = ucast (width_ticks (run_events step_b evs_b s_b))"
    and "rest_b =
        [(PH_DEADTIME1, DEAD_TIME_TICKS),
         (PH_NEGATIVE, ucast (width_ticks (run_events step_b evs_b s_b))),
         (PH_DEADTIME2, DEAD_TIME_TICKS),
         (PH_GAP, first_chunk (deadtime2_gap (width_ticks (run_events step_b evs_b s_b))
                    (period_ticks (run_events step_b evs_b s_b))))]"
    and "gap_remaining (run_events step_b evs_b s_b) =
        deadtime2_gap (width_ticks (run_events step_b evs_b s_b))
          (period_ticks (run_events step_b evs_b s_b)) -
        first_chunk (deadtime2_gap (width_ticks (run_events step_b evs_b s_b))
          (period_ticks (run_events step_b evs_b s_b)))"
    by simp_all
qed

theorem pulse_handoff_atomic_witness:
  "phase (pulse_set_width 120 pulse_channel_init) = PH_GAP \<and>
   params_dirty (pulse_set_width 120 pulse_channel_init) \<noteq> 0 \<and>
   gap_remaining (pulse_set_width 120 pulse_channel_init) = 0 \<and>
   width_ticks (TIMER1_COMPA_vect (pulse_set_width 120 pulse_channel_init)) = 120 \<and>
   params_dirty (TIMER2_COMP_vect (pulse_set_width 120 pulse_channel_init)) = 0 \<and>
   phase (pulse_set_width 120 (pulse_channel_init\<lparr>phase := PH_DEADTIME1\<rparr>)) \<noteq> PH_GAP \<and>
   width_ticks (TIMER1_COMPA_vect (pulse_set_width 120 (pulse_channel_init\<lparr>phase := PH_DEADTIME1\<rparr>))) = 100 \<and>
   params_dirty (TIMER2_COMP_vect (pulse_set_width 120 (pulse_channel_init\<lparr>phase := PH_DEADTIME1\<rparr>))) = 1 \<and>
   isr_count [SET_WIDTH 120, SET_FREQUENCY 2000, SET_GATE 1, ISR, SET_WIDTH 200, ISR,
           SET_FREQUENCY 600, ISR, SET_GATE 0, SET_WIDTH 90, ISR, ISR, SET_WIDTH 80] = 5 \<and>
   isr_log step_a [SET_WIDTH 120, SET_FREQUENCY 2000, SET_GATE 1, ISR, SET_WIDTH 200, ISR,
           SET_FREQUENCY 600, ISR, SET_GATE 0, SET_WIDTH 90, ISR, ISR, SET_WIDTH 80]
      pulse_channel_init =
     [(PH_POSITIVE, 120), (PH_DEADTIME1, 4), (PH_NEGATIVE, 120), (PH_DEADTIME2, 4),
      (PH_GAP, 1752)] \<and>
   isr_log step_b [SET_WIDTH 120, SET_FREQUENCY 2000, SET_GATE 1, ISR, SET_WIDTH 200, ISR,
           SET_FREQUENCY 600, ISR, SET_GATE 0, SET_WIDTH 90, ISR, ISR, SET_WIDTH 80]
      pulse_channel_init =
     [(PH_POSITIVE, 120), (PH_DEADTIME1, 4), (PH_NEGATIVE, 120), (PH_DEADTIME2, 4),
      (PH_GAP, 250)] \<and>
   gap_remaining (run_events step_b [SET_WIDTH 120, SET_FREQUENCY 2000, SET_GATE 1, ISR,
           SET_WIDTH 200, ISR, SET_FREQUENCY 600, ISR, SET_GATE 0, SET_WIDTH 90, ISR, ISR,
           SET_WIDTH 80] pulse_channel_init) = 1502"
  using pulse_handoff_atomic
    [where g = "pulse_set_width 120 pulse_channel_init"
       and c = "pulse_set_width 120 (pulse_channel_init\<lparr>phase := PH_DEADTIME1\<rparr>)"
       and evs_a = "[SET_WIDTH 120, SET_FREQUENCY 2000, SET_GATE 1, ISR, SET_WIDTH 200, ISR,
           SET_FREQUENCY 600, ISR, SET_GATE 0, SET_WIDTH 90, ISR, ISR, SET_WIDTH 80]"
       and s_a = pulse_channel_init and d_a = 120
       and rest_a = "[(PH_DEADTIME1, 4), (PH_NEGATIVE, 120), (PH_DEADTIME2, 4), (PH_GAP, 1752)]"
       and evs_b = "[SET_WIDTH 120, SET_FREQUENCY 2000, SET_GATE 1, ISR, SET_WIDTH 200, ISR,
           SET_FREQUENCY 600, ISR, SET_GATE 0, SET_WIDTH 90, ISR, ISR, SET_WIDTH 80]"
       and s_b = pulse_channel_init and d_b = 120
       and rest_b = "[(PH_DEADTIME1, 4), (PH_NEGATIVE, 120), (PH_DEADTIME2, 4), (PH_GAP, 250)]"]
  by (simp add: isr_count_def pulse_channel_init_def pulse_set_width_def
      pulse_set_frequency_def pulse_set_gate_def TIMER1_COMPA_vect_def TIMER2_COMP_vect_def
      latch_pending_def ch_all_off_def ch_positive_def ch_negative_def deadtime2_gap_def
      first_chunk_def DEAD_TIME_TICKS_def PULSE_OFF_def Let_def)

text \<open>
  C4. The claim as stated (the gap computed at the end of DEADTIME2 is at least the dead
  time for every active width and period) fails: the submission functions accept the
  width 250 and the period 509, the ISR latches them, and the gap it loads is 1.
\<close>

theorem gap_below_deadtime_counterexample:
  "width_ticks (run_events step_a
      [SET_WIDTH 250, SET_FREQUENCY 509, SET_GATE 1, ISR, ISR, ISR, ISR, ISR]
      pulse_channel_init) = 250 \<and>
   period_ticks (run_events step_a
      [SET_WIDTH 250, SET_FREQUENCY 509, SET_GATE 1, ISR, ISR, ISR, ISR, ISR]
      pulse_channel_init) = 509 \<and>
   isr_log step_a [SET_WIDTH 250, SET_FREQUENCY 509, SET_GATE 1, ISR, ISR, ISR, ISR, ISR]
      pulse_channel_init =
     [(PH_POSITIVE, 250), (PH_DEADTIME1, 4), (PH_NEGATIVE, 250), (PH_DEADTIME2, 4),
      (PH_GAP, 1)] \<and>
   isr_log step_b [SET_WIDTH 250, SET_FREQUENCY 509, SET_GATE 1, ISR, ISR, ISR, ISR, ISR]
      pulse_channel_init =
     [(PH_POSITIVE, 250), (PH_DEADTIME1, 4), (PH_NEGATIVE, 250), (PH_DEADTIME2, 4),
      (PH_GAP, 1)] \<and>
   \<not> DEAD_TIME_TICKS \<le> deadtime2_gap 250 509"
  by (simp add: pulse_channel_init_def pulse_set_width_def
      pulse_set_frequency_def pulse_set_gate_def TIMER1_COMPA_vect_def TIMER2_COMP_vect_def
      latch_pending_def ch_all_off_def ch_positive_def ch_negative_def deadtime2_gap_def
      first_chunk_def DEAD_TIME_TICKS_def PULSE_OFF_def Let_def word_le_nat_alt)

lemma first_chunk_split:
  "unat (first_chunk g) + unat (g - first_chunk g) = unat g"
  by (simp add: first_chunk_def unat_sub word_le_nat_alt not_le word_less_nat_alt)

text \<open>
  C4, as the code has it. At the end of DEADTIME2 both ISRs go to GAP with a gap that is
  never zero and never wrapped: if the period is at most \<open>2 * width + 2 * deadtime\<close> the
  gap is the dead time (4); otherwise it is exactly
  \<open>period - 2 * width - 2 * deadtime\<close>, which is at least the dead time only when the
  period is at least \<open>2 * width + 3 * deadtime\<close>. The ISR is a total function with no
  error result; channel B loads the same gap split between its compare register and
  \<open>gap_remaining\<close>.
\<close>

theorem deadtime2_gap_guard:
  "phase c = PH_DEADTIME2 \<longrightarrow>
     phase (TIMER1_COMPA_vect c) = PH_GAP \<and> phase (TIMER2_COMP_vect c) = PH_GAP \<and>
     unat (ocr (TIMER2_COMP_vect c)) + unat (gap_remaining (TIMER2_COMP_vect c)) =
       unat (ocr (TIMER1_COMPA_vect c)) \<and>
     0 < unat (ocr (TIMER2_COMP_vect c)) \<and>
     0 < unat (ocr (TIMER1_COMPA_vect c)) \<and>
     (unat (period_ticks c) \<le> 2 * unat (width_ticks c) + 2 * unat DEAD_TIME_TICKS \<longrightarrow>
        ocr (TIMER1_COMPA_vect c) = DEAD_TIME_TICKS) \<and>
     (2 * unat (width_ticks c) + 2 * unat DEAD_TIME_TICKS < unat (period_ticks c) \<longrightarrow>
        unat (ocr (TIMER1_COMPA_vect c)) =
          unat (period_ticks c) - (2 * unat (width_ticks c) + 2 * unat DEAD_TIME_TICKS)) \<and>
     (2 * unat (width_ticks c) + 3 * unat DEAD_TIME_TICKS \<le> unat (period_ticks c) \<longrightarrow>
        DEAD_TIME_TICKS \<le> ocr (TIMER1_COMPA_vect c))"
proof
  assume ph: "phase c = PH_DEADTIME2"
  define G where "G = deadtime2_gap (width_ticks c) (period_ticks c)"
  have a: "ocr (TIMER1_COMPA_vect c) = G" "phase (TIMER1_COMPA_vect c) = PH_GAP"
    using ph by (simp_all add: TIMER1_COMPA_vect_def G_def Let_def)
  have b: "ocr (TIMER2_COMP_vect c) = first_chunk G"
    "gap_remaining (TIMER2_COMP_vect c) = G - first_chunk G"
    "phase (TIMER2_COMP_vect c) = PH_GAP"
    using ph by (simp_all add: TIMER2_COMP_vect_def G_def Let_def first_chunk_def ucast_low_byte)
  have pos: "0 < unat G" unfolding G_def by (rule gap_pos)
  have posb: "0 < unat (first_chunk G)"
    using pos by (simp add: first_chunk_def)
  have d: "unat DEAD_TIME_TICKS = 4" by (simp add: DEAD_TIME_TICKS_def)
  have small: "unat (period_ticks c) \<le> 2 * unat (width_ticks c) + 8 \<Longrightarrow> G = DEAD_TIME_TICKS"
    unfolding G_def by (rule gap_small)
  have big: "2 * unat (width_ticks c) + 8 < unat (period_ticks c) \<Longrightarrow>
      unat G = unat (period_ticks c) - (2 * unat (width_ticks c) + 8)"
    unfolding G_def by (rule gap_big)
  show "phase (TIMER1_COMPA_vect c) = PH_GAP \<and> phase (TIMER2_COMP_vect c) = PH_GAP \<and>
     unat (ocr (TIMER2_COMP_vect c)) + unat (gap_remaining (TIMER2_COMP_vect c)) =
       unat (ocr (TIMER1_COMPA_vect c)) \<and>
     0 < unat (ocr (TIMER2_COMP_vect c)) \<and>
     0 < unat (ocr (TIMER1_COMPA_vect c)) \<and>
     (unat (period_ticks c) \<le> 2 * unat (width_ticks c) + 2 * unat DEAD_TIME_TICKS \<longrightarrow>
        ocr (TIMER1_COMPA_vect c) = DEAD_TIME_TICKS) \<and>
     (2 * unat (width_ticks c) + 2 * unat DEAD_TIME_TICKS < unat (period_ticks c) \<longrightarrow>
        unat (ocr (TIMER1_COMPA_vect c)) =
          unat (period_ticks c) - (2 * unat (width_ticks c) + 2 * unat DEAD_TIME_TICKS)) \<and>
     (2 * unat (width_ticks c) + 3 * unat DEAD_TIME_TICKS \<le> unat (period_ticks c) \<longrightarrow>
        DEAD_TIME_TICKS \<le> ocr (TIMER1_COMPA_vect c))"
    using a b pos posb small big first_chunk_split [of G]
    by (auto simp: d word_le_nat_alt)
qed

theorem deadtime2_gap_guard_witness:
  "phase (pulse_channel_init\<lparr>phase := PH_DEADTIME2, width_ticks := 250,
       period_ticks := 500\<rparr>) = PH_DEADTIME2 \<and>
   unat (500 :: u16) \<le> 2 * unat (250 :: u8) + 2 * unat DEAD_TIME_TICKS \<and>
   ocr (TIMER1_COMPA_vect (pulse_channel_init\<lparr>phase := PH_DEADTIME2, width_ticks := 250,
       period_ticks := 500\<rparr>)) = DEAD_TIME_TICKS \<and>
   phase (pulse_channel_init\<lparr>phase := PH_DEADTIME2\<rparr>) = PH_DEADTIME2 \<and>
   2 * unat (100 :: u8) + 3 * unat DEAD_TIME_TICKS \<le> unat (5000 :: u16) \<and>
   ocr (TIMER1_COMPA_vect (pulse_channel_init\<lparr>phase := PH_DEADTIME2\<rparr>)) = 4792 \<and>
   ocr (TIMER2_COMP_vect (pulse_channel_init\<lparr>phase := PH_DEADTIME2\<rparr>)) = 250 \<and>
   gap_remaining (TIMER2_COMP_vect (pulse_channel_init\<lparr>phase := PH_DEADTIME2\<rparr>)) = 4542"
  using deadtime2_gap_guard
      [of "pulse_channel_init\<lparr>phase := PH_DEADTIME2, width_ticks := 250, period_ticks := 500\<rparr>"]
    deadtime2_gap_guard [of "pulse_channel_init\<lparr>phase := PH_DEADTIME2\<rparr>"]
  by (simp add: pulse_channel_init_def TIMER1_COMPA_vect_def TIMER2_COMP_vect_def
      deadtime2_gap_def DEAD_TIME_TICKS_def Let_def)

section \<open>Properties of the parameter engine\<close>

subsection \<open>Knob scaling\<close>

lemma ucast_le_8_16: "(ucast (a::u8) :: u16) \<le> ucast (b::u8) \<longleftrightarrow> a \<le> b"
  by (simp add: word_le_nat_alt unat_ucast_8_16)

lemma unat_diff_8_16: "b \<le> a \<Longrightarrow> unat ((ucast (a::u8) :: u16) - ucast (b::u8)) = unat a - unat b"
  by (simp add: unat_sub ucast_le_8_16 unat_ucast_8_16)

lemma scaled_shift:
  assumes "b \<le> (a::u8)"
  shows "unat (ucast (drop_bit 8 ((ucast (K::u8) :: u16) * (ucast a - ucast b))) :: u8) =
         (unat K * (unat a - unat b)) div 256"
proof -
  have d: "unat a - unat b < 256" using unat_u8_lt [of a] by simp
  have k: "unat K < 256" by (rule unat_u8_lt)
  have "unat K * (unat a - unat b) \<le> 255 * 255"
    using d k by (intro mult_le_mono) simp_all
  then have p: "unat K * (unat a - unat b) < 65536" by simp
  have m: "unat ((ucast K :: u16) * (ucast a - ucast b)) = unat K * (unat a - unat b)"
    using p by (simp add: unat_word_ariths unat_ucast_8_16 unat_diff_8_16 [OF assms])
  have q: "(unat K * (unat a - unat b)) div 256 < 256" using p by simp
  show ?thesis
    using q by (simp add: unsigned_ucast_eq drop_bit_eq_div unat_div m take_bit_nat_eq_self)
qed

lemma scaled_le:
  "(unat (K::u8) * d) div 256 \<le> d"
proof -
  have "unat K * d \<le> 256 * d" using unat_u8_lt [of K] by (intro mult_le_mono) simp_all
  then have "(unat K * d) div 256 \<le> (256 * d) div 256" by (rule div_le_mono)
  then show ?thesis by simp
qed

lemma mode_dispatcher_map_ma_spec:
  "unat (mode_dispatcher_map_ma K high low) = spec_knob_scaling (unat K) (unat low) (unat high)"
proof (cases "low \<le> high")
  case True
  let ?q = "(unat K * (unat high - unat low)) div 256"
  have q: "?q \<le> unat high - unat low" by (rule scaled_le)
  have "unat low + ?q \<le> unat high" using q True by (simp add: word_le_nat_alt)
  then have b: "unat low + ?q < 256" using unat_u8_lt [of high] by simp
  show ?thesis
    using True b
    by (simp add: mode_dispatcher_map_ma_def spec_knob_scaling_def scaled_shift [OF True]
        unat_word_ariths word_le_nat_alt)
next
  case False
  then have lt: "high \<le> low" by simp
  let ?q = "(unat K * (unat low - unat high)) div 256"
  have q: "?q \<le> unat low - unat high" by (rule scaled_le)
  then have le: "?q \<le> unat low" by simp
  have qw: "unat (ucast (drop_bit 8 ((ucast K :: u16) * (ucast low - ucast high))) :: u8) = ?q"
    by (rule scaled_shift [OF lt])
  have "unat (low - ucast (drop_bit 8 ((ucast K :: u16) * (ucast low - ucast high)))) =
        unat low - ?q"
    using le qw by (simp add: unat_sub word_le_nat_alt)
  then show ?thesis
    using False by (simp add: mode_dispatcher_map_ma_def spec_knob_scaling_def word_le_nat_alt)
qed

text \<open>
  C5. The claim: the knob-to-range scaling is \<open>low + ((K * (high - low)) >> 8)\<close> for
  \<open>high \<ge> low\<close> and \<open>low - ((K * (low - high)) >> 8)\<close> otherwise, and the parameter
  engine's and the interpreter's scaling functions both compute it. The interpreter's
  \<open>map_ma\<close> does (\<open>mode_dispatcher_map_ma_spec\<close>); the parameter engine's \<open>map_ma\<close>
  divides by 255 instead of shifting by 8. At the full knob \<open>K = 255\<close> with the range
  \<open>(0, 255)\<close> the engine returns 255 where the interpreter and the formula give 254;
  with the inverted range \<open>(255, 0)\<close> it returns 0 where they give 1.
\<close>

theorem map_ma_differ_at_full_knob:
  "param_engine_map_ma 255 255 0 = 255 \<and>
   mode_dispatcher_map_ma 255 255 0 = 254 \<and>
   spec_knob_scaling 255 0 255 = 254 \<and>
   param_engine_map_ma 255 0 255 = 0 \<and>
   mode_dispatcher_map_ma 255 0 255 = 1 \<and>
   spec_knob_scaling 255 255 0 = 1"
  by (simp add: param_engine_map_ma_def mode_dispatcher_map_ma_def spec_knob_scaling_def)

subsection \<open>Boundary action LOOP\<close>

lemmas step_defs = step_group_def do_action_def resolve_source_def timer_fires_def
  Let_def ACTION_LOOP_def ACTION_REV_TOGGLE_def ACTION_REVERSE_def ACTION_STOP_def
  SEL_TIMER_MASK_def SEL_TIMER_NONE_def SEL_TIMER_244HZ_def SEL_TIMER_30HZ_def
  SEL_TIMER_1HZ_def DIR_UP_def DIR_DOWN_def

lemma nine_Suc: "(9::nat) = Suc (Suc (Suc (Suc (Suc (Suc (Suc (Suc (Suc 0))))))))"
  by simp

lemma ten_Suc: "(10::nat) = Suc (Suc (Suc (Suc (Suc (Suc (Suc (Suc (Suc (Suc 0)))))))))"
  by simp

lemma eleven_Suc:
  "(11::nat) = Suc (Suc (Suc (Suc (Suc (Suc (Suc (Suc (Suc (Suc (Suc 0))))))))))"
  by simp

text \<open>
  C8. The claim as stated (with LOOP at both ends, step 1, min 10, max 20, starting at
  10 going up and firing on every tick, the value is 10 again after exactly 11 firing
  ticks) fails: after 11 ticks the value is 11.
\<close>

theorem loop_wrap_11_counterexample:
  "g_value (fst (group_ticks 11 0 0 0 0 0 (loop_scenario_group, channel_defaults, DIR_UP))) = 11 \<and>
   g_value (fst (group_ticks 11 0 0 0 0 0 (loop_scenario_group, channel_defaults, DIR_UP))) \<noteq> 10"
  unfolding eleven_Suc
  by (simp add: loop_scenario_group_def step_defs)

text \<open>
  C8, as the code has it. The step that would reach \<open>max\<close> already counts as hitting
  it (\<open>next >= max\<close>): the value is clamped to \<open>max\<close> and LOOP wraps it to \<open>min\<close>
  within the same tick. So the value climbs 11, 12, ..., 19 on the first nine ticks and is
  10 again after exactly 10 firing ticks, with the direction still up, the timer at 0 and
  the block untouched; this holds wherever the tick counter stands and whatever the knob,
  the advanced settings and the other channel hold.
\<close>

theorem loop_wrap_after_10_ticks:
  "g_value (fst (group_ticks 9 tc ma am ar ov (loop_scenario_group, ch, DIR_UP))) = 19 \<and>
   group_ticks 10 tc ma am ar ov (loop_scenario_group, ch, DIR_UP) =
     (loop_scenario_group, ch, DIR_UP)"
  unfolding nine_Suc ten_Suc
  by (simp add: loop_scenario_group_def step_defs)

section \<open>Properties of the persistent configuration\<close>

lemma write_bytes_outside:
  "j < a \<or> a + length bs \<le> j \<Longrightarrow> write_bytes a bs ee j = ee j"
  by (induction bs arbitrary: a ee) (auto simp: mk312bt_eeprom_write_byte_def)

lemma write_bytes_inside:
  "i < length bs \<Longrightarrow> write_bytes a bs ee (a + i) = bs ! i"
proof (induction bs arbitrary: a ee i)
  case Nil
  then show ?case by simp
next
  case (Cons b bs)
  show ?case
  proof (cases i)
    case 0
    then show ?thesis
      by (simp add: write_bytes_outside mk312bt_eeprom_write_byte_def)
  next
    case (Suc k)
    with Cons.prems have "k < length bs" by simp
    from Cons.IH [OF this, of "Suc a"] Suc show ?thesis by simp
  qed
qed

lemma read_after_write:
  "read_bytes a (length bs) (write_bytes a bs ee) = bs"
  by (rule nth_equalityI)
     (simp_all add: read_bytes_def mk312bt_eeprom_read_byte_def write_bytes_inside)

lemma read_bytes_update:
  "i < n \<Longrightarrow> read_bytes a n (ee(a + i := v)) = (read_bytes a n ee)[i := v]"
  by (rule nth_equalityI)
     (auto simp: read_bytes_def mk312bt_eeprom_read_byte_def nth_list_update)

lemma length_config_bytes: "length (config_bytes c) = 22"
  by (simp add: config_bytes_def)

lemma config_of_bytes_inverse: "config_of_bytes (config_bytes c) = c"
  by (simp add: config_of_bytes_def config_bytes_def)

lemma lt22_cases:
  "i < (22::nat) \<Longrightarrow>
     i = 21 \<or> i = 20 \<or> i = 19 \<or> i = 18 \<or> i = 17 \<or> i = 16 \<or> i = 15 \<or> i = 14 \<or>
     i = 13 \<or> i = 12 \<or> i = 11 \<or> i = 10 \<or> i = 9 \<or> i = 8 \<or> i = 7 \<or> i = 6 \<or>
     i = 5 \<or> i = 4 \<or> i = 3 \<or> i = 2 \<or> i = 1 \<or> i = 0"
  by arith

lemma config_bytes_inverse: "length bs = 22 \<Longrightarrow> config_bytes (config_of_bytes bs) = bs"
proof (rule nth_equalityI)
  show "length bs = 22 \<Longrightarrow> length (config_bytes (config_of_bytes bs)) = length bs"
    by (simp add: config_bytes_def)
next
  fix i
  assume "length bs = 22" and "i < length (config_bytes (config_of_bytes bs))"
  then have "i < 22" by (simp add: config_bytes_def)
  from lt22_cases [OF this]
  show "config_bytes (config_of_bytes bs) ! i = bs ! i"
    by (elim disjE) (simp_all add: config_bytes_def config_of_bytes_def)
qed

lemma xor_fold_acc:
  "foldl (\<lambda>c b. c XOR b) (a::u8) xs = foldl (\<lambda>c b. c XOR b) 0 xs XOR a"
proof (induction xs arbitrary: a)
  case Nil
  show ?case by simp
next
  case (Cons x xs)
  show ?case
    using Cons.IH [of "a XOR x"] Cons.IH [of x] by (simp add: ac_simps)
qed

lemma xor_cancel_left: "(a::u8) XOR x = a XOR y \<longleftrightarrow> x = y"
proof
  assume h: "a XOR x = a XOR y"
  have "x = a XOR (a XOR x)" by (simp add: xor.assoc [symmetric])
  also have "\<dots> = a XOR (a XOR y)" by (simp only: h)
  also have "\<dots> = y" by (simp add: xor.assoc [symmetric])
  finally show "x = y" .
qed simp

lemma xor_fold_update:
  "i < length xs \<Longrightarrow> v \<noteq> xs ! i \<Longrightarrow>
     foldl (\<lambda>c b. c XOR b) (a::u8) (xs[i := v]) \<noteq> foldl (\<lambda>c b. c XOR b) a xs"
proof (induction xs arbitrary: a i)
  case Nil
  then show ?case by simp
next
  case (Cons x xs)
  show ?case
  proof (cases i)
    case 0
    with Cons.prems have "v \<noteq> x" by simp
    then have "foldl (\<lambda>c b. c XOR b) 0 xs XOR (a XOR v) \<noteq>
        foldl (\<lambda>c b. c XOR b) 0 xs XOR (a XOR x)"
      by (simp add: xor_cancel_left)
    then show ?thesis
      using 0 xor_fold_acc [of "a XOR v" xs] xor_fold_acc [of "a XOR x" xs] by simp
  next
    case (Suc k)
    with Cons.prems have "k < length xs" "v \<noteq> xs ! k" by simp_all
    from Cons.IH [OF this, of "a XOR x"] Suc show ?thesis by simp
  qed
qed

lemma checksum_of_bytes:
  "length bs = 22 \<Longrightarrow>
     eeprom_calculate_checksum (config_of_bytes bs) = foldl (\<lambda>c b. c XOR b) 0 (take 21 bs)"
  by (simp add: eeprom_calculate_checksum_def sizeof_eeprom_config_t_def config_bytes_inverse)

lemma magic_of_bytes: "magic (config_of_bytes bs) = bs ! 0"
  by (simp add: config_of_bytes_def)

lemma checksum_field_of_bytes: "checksum (config_of_bytes bs) = bs ! 21"
  by (simp add: config_of_bytes_def)

lemma checksum_ignores_checksum_field:
  "eeprom_calculate_checksum (c\<lparr>checksum := x\<rparr>) = eeprom_calculate_checksum c"
  by (simp add: eeprom_calculate_checksum_def sizeof_eeprom_config_t_def config_bytes_def)

lemma saved_bytes:
  assumes "eeprom_save_config cfg ee = (saved, ee')"
  shows "read_bytes EEPROM_CONFIG_BASE sizeof_eeprom_config_t ee' = config_bytes saved"
    and "magic saved = EEPROM_MAGIC_BYTE"
    and "checksum saved = eeprom_calculate_checksum saved"
    and "saved = cfg\<lparr>magic := EEPROM_MAGIC_BYTE,
                  checksum := eeprom_calculate_checksum (cfg\<lparr>magic := EEPROM_MAGIC_BYTE\<rparr>)\<rparr>"
proof -
  from assms show s: "saved = cfg\<lparr>magic := EEPROM_MAGIC_BYTE,
                  checksum := eeprom_calculate_checksum (cfg\<lparr>magic := EEPROM_MAGIC_BYTE\<rparr>)\<rparr>"
    by (simp add: eeprom_save_config_def Let_def)
  from assms have e: "ee' = write_bytes EEPROM_CONFIG_BASE (config_bytes saved) ee"
    by (auto simp: eeprom_save_config_def Let_def)
  show "read_bytes EEPROM_CONFIG_BASE sizeof_eeprom_config_t ee' = config_bytes saved"
    unfolding e
    using read_after_write [of EEPROM_CONFIG_BASE "config_bytes saved" ee]
    by (simp add: length_config_bytes sizeof_eeprom_config_t_def)
  show "magic saved = EEPROM_MAGIC_BYTE" unfolding s by simp
  show "checksum saved = eeprom_calculate_checksum saved"
    unfolding s by (simp add: checksum_ignores_checksum_field)
qed

lemma load_after_save:
  "eeprom_save_config cfg ee = (saved, ee') \<Longrightarrow> eeprom_load_config ee' = (1, saved)"
  using saved_bytes(1-3) [of cfg ee saved ee']
  by (simp add: eeprom_load_config_def Let_def config_of_bytes_inverse)

lemma corrupt_fails:
  assumes rb: "read_bytes EEPROM_CONFIG_BASE sizeof_eeprom_config_t ee = bs"
    and len: "length bs = 22"
    and mg: "bs ! 0 = EEPROM_MAGIC_BYTE"
    and ck: "bs ! 21 = foldl (\<lambda>c b. c XOR b) 0 (take 21 bs)"
    and i: "i < 22" and v: "v \<noteq> bs ! i"
  shows "fst (eeprom_load_config (ee(EEPROM_CONFIG_BASE + i := v))) = 0"
proof -
  define C where "C = config_of_bytes (bs[i := v])"
  have rb': "read_bytes EEPROM_CONFIG_BASE sizeof_eeprom_config_t (ee(EEPROM_CONFIG_BASE + i := v))
      = bs[i := v]"
    using read_bytes_update [of i sizeof_eeprom_config_t EEPROM_CONFIG_BASE ee v] i rb
    by (simp add: sizeof_eeprom_config_t_def)
  have load: "eeprom_load_config (ee(EEPROM_CONFIG_BASE + i := v)) =
      (if magic C \<noteq> EEPROM_MAGIC_BYTE then (0, C)
       else if eeprom_calculate_checksum C \<noteq> checksum C then (0, C) else (1, C))"
    unfolding eeprom_load_config_def rb' C_def by (simp add: Let_def)
  have len': "length (bs[i := v]) = 22" using len by simp
  have calc: "eeprom_calculate_checksum C = foldl (\<lambda>c b. c XOR b) 0 (take 21 (bs[i := v]))"
    unfolding C_def by (rule checksum_of_bytes [OF len'])
  have bad: "magic C \<noteq> EEPROM_MAGIC_BYTE \<or> eeprom_calculate_checksum C \<noteq> checksum C"
  proof (cases "i = 0")
    case True
    then have "magic C = v" using len by (simp add: C_def magic_of_bytes)
    then show ?thesis using v mg True by simp
  next
    case False
    show ?thesis
    proof (cases "i = 21")
      case True
      have "take 21 (bs[i := v]) = take 21 bs" using True by simp
      then have "eeprom_calculate_checksum C = bs ! 21" using ck calc by simp
      moreover have "checksum C = v"
        using True len by (simp add: C_def checksum_field_of_bytes)
      ultimately show ?thesis using v True by simp
    next
      case False
      with i have i21: "i < 21" by simp
      have "take 21 (bs[i := v]) = (take 21 bs)[i := v]" by (simp add: take_update_swap)
      moreover have "i < length (take 21 bs)" "v \<noteq> take 21 bs ! i"
        using i21 len v by simp_all
      ultimately have "foldl (\<lambda>c b. c XOR b) 0 (take 21 (bs[i := v])) \<noteq>
          foldl (\<lambda>c b. c XOR b) 0 (take 21 bs)"
        using xor_fold_update [of i "take 21 bs" v 0] by simp
      then have "eeprom_calculate_checksum C \<noteq> bs ! 21" using ck calc by simp
      moreover have "checksum C = bs ! 21"
        using i21 len by (simp add: C_def checksum_field_of_bytes)
      ultimately show ?thesis by simp
    qed
  qed
  then show ?thesis unfolding load by auto
qed

lemma corrupt_after_save:
  assumes sv: "eeprom_save_config cfg ee = (saved, ee')"
    and i: "i < sizeof_eeprom_config_t" and v: "v \<noteq> ee' (EEPROM_CONFIG_BASE + i)"
  shows "fst (eeprom_load_config (ee'(EEPROM_CONFIG_BASE + i := v))) = 0"
proof -
  note sb = saved_bytes [OF sv]
  let ?bs = "config_bytes saved"
  have rb: "read_bytes EEPROM_CONFIG_BASE sizeof_eeprom_config_t ee' = ?bs" by (rule sb(1))
  have i22: "i < 22" using i by (simp add: sizeof_eeprom_config_t_def)
  have "read_bytes EEPROM_CONFIG_BASE sizeof_eeprom_config_t ee' ! i = ee' (EEPROM_CONFIG_BASE + i)"
    using i by (simp add: read_bytes_def mk312bt_eeprom_read_byte_def)
  then have v': "v \<noteq> ?bs ! i" using v rb by simp
  have mg: "?bs ! 0 = EEPROM_MAGIC_BYTE" using sb(2) by (simp add: config_bytes_def)
  have ck: "?bs ! 21 = foldl (\<lambda>c b. c XOR b) 0 (take 21 ?bs)"
    using sb(3)
    by (simp add: eeprom_calculate_checksum_def sizeof_eeprom_config_t_def config_bytes_def)
  show ?thesis
    by (rule corrupt_fails [OF rb length_config_bytes mg ck i22 v'])
qed

text \<open>
  C9. Saving the configuration block and loading it again reports success and returns
  the saved struct, which is the caller's struct with the magic and the checksum filled
  in, so every setting round-trips into the runtime configuration (the split selections
  are read from their own two cells). If then any single byte of the stored block is
  changed to a different value, the load fails on the magic or on the XOR checksum, and
  \<open>config_load_from_eeprom\<close> takes the factory defaults and leaves the store as it
  found it.
\<close>

theorem persistence_roundtrip:
  "eeprom_save_config cfg ee = (saved, ee') \<longrightarrow>
     saved = cfg\<lparr>magic := EEPROM_MAGIC_BYTE,
                  checksum := eeprom_calculate_checksum (cfg\<lparr>magic := EEPROM_MAGIC_BYTE\<rparr>)\<rparr> \<and>
     eeprom_load_config ee' = (1, saved) \<and>
     config_load_from_eeprom \<lparr>system_config = sc, eeprom = ee'\<rparr> =
       \<lparr>system_config =
          \<lparr>sys_current_mode = top_mode cfg, sys_power_level = power_level cfg,
           sys_split_mode = split_mode cfg,
           sys_split_a_mode = fst (eeprom_load_split_modes ee'),
           sys_split_b_mode = snd (eeprom_load_split_modes ee'),
           sys_intensity_a = intensity_a cfg, sys_intensity_b = intensity_b cfg,
           sys_frequency_a = frequency_a cfg, sys_frequency_b = frequency_b cfg,
           sys_width_a = width_a cfg, sys_width_b = width_b cfg,
           sys_multi_adjust = multi_adjust cfg, sys_audio_gain = audio_gain cfg,
           sys_adv_ramp_level = adv_ramp_level cfg, sys_adv_ramp_time = adv_ramp_time cfg,
           sys_adv_depth = adv_depth cfg, sys_adv_tempo = adv_tempo cfg,
           sys_adv_frequency = adv_frequency cfg, sys_adv_effect = adv_effect cfg,
           sys_adv_width = adv_width cfg, sys_adv_pace = adv_pace cfg,
           sys_favorite_mode = favorite_mode cfg\<rparr>,
        eeprom = ee'\<rparr> \<and>
     (i < sizeof_eeprom_config_t \<and> v \<noteq> ee' (EEPROM_CONFIG_BASE + i) \<longrightarrow>
        fst (eeprom_load_config (ee'(EEPROM_CONFIG_BASE + i := v))) = 0 \<and>
        config_load_from_eeprom
            \<lparr>system_config = sc, eeprom = ee'(EEPROM_CONFIG_BASE + i := v)\<rparr> =
          \<lparr>system_config = config_set_defaults,
           eeprom = ee'(EEPROM_CONFIG_BASE + i := v)\<rparr>)"
proof (intro impI conjI)
  assume sv: "eeprom_save_config cfg ee = (saved, ee')"
  show s: "saved = cfg\<lparr>magic := EEPROM_MAGIC_BYTE,
                  checksum := eeprom_calculate_checksum (cfg\<lparr>magic := EEPROM_MAGIC_BYTE\<rparr>)\<rparr>"
    by (rule saved_bytes(4) [OF sv])
  show l: "eeprom_load_config ee' = (1, saved)" by (rule load_after_save [OF sv])
  show "config_load_from_eeprom \<lparr>system_config = sc, eeprom = ee'\<rparr> =
       \<lparr>system_config =
          \<lparr>sys_current_mode = top_mode cfg, sys_power_level = power_level cfg,
           sys_split_mode = split_mode cfg,
           sys_split_a_mode = fst (eeprom_load_split_modes ee'),
           sys_split_b_mode = snd (eeprom_load_split_modes ee'),
           sys_intensity_a = intensity_a cfg, sys_intensity_b = intensity_b cfg,
           sys_frequency_a = frequency_a cfg, sys_frequency_b = frequency_b cfg,
           sys_width_a = width_a cfg, sys_width_b = width_b cfg,
           sys_multi_adjust = multi_adjust cfg, sys_audio_gain = audio_gain cfg,
           sys_adv_ramp_level = adv_ramp_level cfg, sys_adv_ramp_time = adv_ramp_time cfg,
           sys_adv_depth = adv_depth cfg, sys_adv_tempo = adv_tempo cfg,
           sys_adv_frequency = adv_frequency cfg, sys_adv_effect = adv_effect cfg,
           sys_adv_width = adv_width cfg, sys_adv_pace = adv_pace cfg,
           sys_favorite_mode = favorite_mode cfg\<rparr>,
        eeprom = ee'\<rparr>"
    unfolding config_load_from_eeprom_def
    by (simp add: l s split_beta)
next
  assume sv: "eeprom_save_config cfg ee = (saved, ee')"
    and h: "i < sizeof_eeprom_config_t \<and> v \<noteq> ee' (EEPROM_CONFIG_BASE + i)"
  from h have i: "i < sizeof_eeprom_config_t" and v: "v \<noteq> ee' (EEPROM_CONFIG_BASE + i)"
    by simp_all
  show f: "fst (eeprom_load_config (ee'(EEPROM_CONFIG_BASE + i := v))) = 0"
    by (rule corrupt_after_save [OF sv i v])
  show "config_load_from_eeprom
            \<lparr>system_config = sc, eeprom = ee'(EEPROM_CONFIG_BASE + i := v)\<rparr> =
          \<lparr>system_config = config_set_defaults,
           eeprom = ee'(EEPROM_CONFIG_BASE + i := v)\<rparr>"
    unfolding config_load_from_eeprom_def
    using f by (simp add: split_beta)
qed

theorem persistence_roundtrip_witness:
  "eeprom_save_config eeprom_init_defaults erased_eeprom =
     (eeprom_init_defaults\<lparr>checksum := 0x7C\<rparr>,
      write_bytes EEPROM_CONFIG_BASE (config_bytes (eeprom_init_defaults\<lparr>checksum := 0x7C\<rparr>))
        erased_eeprom) \<and>
   (5::nat) < sizeof_eeprom_config_t \<and>
   (0::u8) \<noteq> write_bytes EEPROM_CONFIG_BASE
      (config_bytes (eeprom_init_defaults\<lparr>checksum := 0x7C\<rparr>)) erased_eeprom
      (EEPROM_CONFIG_BASE + 5) \<and>
   eeprom_load_config (write_bytes EEPROM_CONFIG_BASE
      (config_bytes (eeprom_init_defaults\<lparr>checksum := 0x7C\<rparr>)) erased_eeprom) =
     (1, eeprom_init_defaults\<lparr>checksum := 0x7C\<rparr>) \<and>
   fst (eeprom_load_config ((write_bytes EEPROM_CONFIG_BASE
      (config_bytes (eeprom_init_defaults\<lparr>checksum := 0x7C\<rparr>)) erased_eeprom)
      (EEPROM_CONFIG_BASE + 5 := 0))) = 0 \<and>
   system_config (config_load_from_eeprom
      \<lparr>system_config = config_set_defaults\<lparr>sys_power_level := 2\<rparr>,
       eeprom = (write_bytes EEPROM_CONFIG_BASE
         (config_bytes (eeprom_init_defaults\<lparr>checksum := 0x7C\<rparr>)) erased_eeprom)
         (EEPROM_CONFIG_BASE + 5 := 0)\<rparr>) = config_set_defaults"
proof -
  have sv: "eeprom_save_config eeprom_init_defaults erased_eeprom =
     (eeprom_init_defaults\<lparr>checksum := 0x7C\<rparr>,
      write_bytes EEPROM_CONFIG_BASE (config_bytes (eeprom_init_defaults\<lparr>checksum := 0x7C\<rparr>))
        erased_eeprom)"
    by (simp add: eeprom_save_config_def eeprom_init_defaults_def eeprom_calculate_checksum_def
        config_bytes_def sizeof_eeprom_config_t_def EEPROM_MAGIC_BYTE_def Let_def)
  have i: "(5::nat) < sizeof_eeprom_config_t" by (simp add: sizeof_eeprom_config_t_def)
  have v: "(0::u8) \<noteq> write_bytes EEPROM_CONFIG_BASE
      (config_bytes (eeprom_init_defaults\<lparr>checksum := 0x7C\<rparr>)) erased_eeprom
      (EEPROM_CONFIG_BASE + 5)"
    by (simp add: config_bytes_def eeprom_init_defaults_def EEPROM_CONFIG_BASE_def
        mk312bt_eeprom_write_byte_def erased_eeprom_def)
  note r = persistence_roundtrip [of eeprom_init_defaults erased_eeprom
        "eeprom_init_defaults\<lparr>checksum := 0x7C\<rparr>"
        "write_bytes EEPROM_CONFIG_BASE (config_bytes (eeprom_init_defaults\<lparr>checksum := 0x7C\<rparr>))
           erased_eeprom"
        "config_set_defaults\<lparr>sys_power_level := 2\<rparr>" 5 0, THEN mp, OF sv]
  from r have l: "eeprom_load_config (write_bytes EEPROM_CONFIG_BASE
      (config_bytes (eeprom_init_defaults\<lparr>checksum := 0x7C\<rparr>)) erased_eeprom) =
     (1, eeprom_init_defaults\<lparr>checksum := 0x7C\<rparr>)" by (elim conjE)
  from r have c: "5 < sizeof_eeprom_config_t \<and> 0 \<noteq> write_bytes EEPROM_CONFIG_BASE
      (config_bytes (eeprom_init_defaults\<lparr>checksum := 0x7C\<rparr>)) erased_eeprom
      (EEPROM_CONFIG_BASE + 5) \<longrightarrow>
      fst (eeprom_load_config ((write_bytes EEPROM_CONFIG_BASE
        (config_bytes (eeprom_init_defaults\<lparr>checksum := 0x7C\<rparr>)) erased_eeprom)
        (EEPROM_CONFIG_BASE + 5 := 0))) = 0 \<and>
      config_load_from_eeprom
        \<lparr>system_config = config_set_defaults\<lparr>sys_power_level := 2\<rparr>,
         eeprom = (write_bytes EEPROM_CONFIG_BASE
           (config_bytes (eeprom_init_defaults\<lparr>checksum := 0x7C\<rparr>)) erased_eeprom)
           (EEPROM_CONFIG_BASE + 5 := 0)\<rparr> =
        \<lparr>system_config = config_set_defaults,
         eeprom = (write_bytes EEPROM_CONFIG_BASE
           (config_bytes (eeprom_init_defaults\<lparr>checksum := 0x7C\<rparr>)) erased_eeprom)
           (EEPROM_CONFIG_BASE + 5 := 0)\<rparr>" by (elim conjE)
  from c i v have f: "fst (eeprom_load_config ((write_bytes EEPROM_CONFIG_BASE
        (config_bytes (eeprom_init_defaults\<lparr>checksum := 0x7C\<rparr>)) erased_eeprom)
        (EEPROM_CONFIG_BASE + 5 := 0))) = 0"
    and g: "config_load_from_eeprom
        \<lparr>system_config = config_set_defaults\<lparr>sys_power_level := 2\<rparr>,
         eeprom = (write_bytes EEPROM_CONFIG_BASE
           (config_bytes (eeprom_init_defaults\<lparr>checksum := 0x7C\<rparr>)) erased_eeprom)
           (EEPROM_CONFIG_BASE + 5 := 0)\<rparr> =
        \<lparr>system_config = config_set_defaults,
         eeprom = (write_bytes EEPROM_CONFIG_BASE
           (config_bytes (eeprom_init_defaults\<lparr>checksum := 0x7C\<rparr>)) erased_eeprom)
           (EEPROM_CONFIG_BASE + 5 := 0)\<rparr>" by blast+
  have g': "system_config (config_load_from_eeprom
      \<lparr>system_config = config_set_defaults\<lparr>sys_power_level := 2\<rparr>,
       eeprom = (write_bytes EEPROM_CONFIG_BASE
         (config_bytes (eeprom_init_defaults\<lparr>checksum := 0x7C\<rparr>)) erased_eeprom)
         (EEPROM_CONFIG_BASE + 5 := 0)\<rparr>) = config_set_defaults"
    by (simp only: g persist_state.simps)
  show ?thesis by (intro conjI sv i v l f g')
qed

section \<open>Properties of the interpreter and the dispatcher\<close>

lemma and_E0_of_F0: "(x::u8) AND 0xE0 = (x AND 0xF0) AND 0xE0"
  by (simp add: and.assoc)

lemma and_80_of_F0: "(x::u8) AND 0x80 = (x AND 0xF0) AND 0x80"
  by (simp add: and.assoc)

lemma and_10_of_F0: "(x::u8) AND 0x10 = (x AND 0xF0) AND 0x10"
  by (simp add: and.assoc)

lemma run_module_unfold:
  "run_module prog pc m =
     (case exec_instr prog pc m of
        Halt \<Rightarrow> Some m
      | Fault \<Rightarrow> None
      | Next pc' m' \<Rightarrow> run_module prog pc' m')"
  by (rule run_module.simps)

lemma reserved_is_end:
  assumes "pc < length prog" and "prog ! pc AND 0xF0 = 0x10"
  shows "exec_instr prog pc m = Halt"
proof -
  have "prog ! pc AND 0xE0 = 0"
    using assms(2) by (subst and_E0_of_F0) simp
  then show ?thesis using assms(1) by (simp add: exec_instr_def Let_def)
qed

lemma skip2_7x:
  assumes "pc < length prog" and "prog ! pc AND 0xF0 = 0x70"
  shows "exec_instr prog pc m = Next (pc + 2) m"
proof -
  have a: "prog ! pc AND 0xE0 = 0x60"
    using assms(2) by (subst and_E0_of_F0) simp
  have b: "prog ! pc AND 0x80 = 0"
    using assms(2) by (subst and_80_of_F0) simp
  have c: "prog ! pc AND 0x10 = 0x10"
    using assms(2) by (subst and_10_of_F0) simp
  have d: "prog ! pc \<noteq> 0x60" using assms(2) by auto
  show ?thesis using assms a b c d by (simp add: exec_instr_def Let_def)
qed











lemmas interp_defs = exec_instr_def exec_set_def exec_copy_def exec_memop_def exec_mathop_def
  exec_load_ma_def reg_write_def reg_read_def channel_get_reg_ptr_def copy_len_def
  operand_addr_def apply_flags_def CHAN_BASE_A_def CHAN_BASE_B_def CHAN_BLOCK_SIZE_def
  OFF_apply_channel_def OFF_gate_value_def Let_def

text \<open>
  C7. The claim as stated (an opcode \<open>0001xxxx\<close> consumes two bytes and the interpreter
  continues with the following instruction) fails: in the module
  \<open>10 00 90 06 00 00\<close> the SET after the reserved opcode is never executed, and the
  gate value stays \<open>0x07\<close>; executed from the third byte, the same module sets it to
  \<open>0x06\<close>.
\<close>

theorem reserved_opcode_counterexample:
  "run_module [0x10, 0x00, 0x90, 0x06, 0x00, 0x00] 0 (mem power_on_engine) =
     Some (mem power_on_engine) \<and>
   gate_value (channel_a (mem power_on_engine)) = 0x07 \<and>
   map_option (\<lambda>m. gate_value (channel_a m))
     (run_module [0x10, 0x00, 0x90, 0x06, 0x00, 0x00] 2 (mem power_on_engine)) = Some 0x06"
  by (simp add: run_module.simps interp_defs power_on_engine_def channel_defaults_def
      gate_value_def)

text \<open>
  C7, as the code has it. The interpreter tests for END first, with the mask \<open>0xE0\<close>,
  and END is \<open>000xxxxx\<close>: an opcode \<open>0001xxxx\<close> at an instruction position ends the
  execution of the module there, with no effect on either channel block or on anything
  else. The two-byte skip without effect, continuing at the following instruction, is
  what the interpreter does for the opcodes \<open>0111xxxx\<close>.
\<close>

theorem reserved_opcode_ends_module:
  "(pc < length prog \<and> prog ! pc AND 0xF0 = 0x10 \<longrightarrow>
      exec_instr prog pc m = Halt \<and> run_module prog pc m = Some m) \<and>
   (pc' < length prog' \<and> prog' ! pc' AND 0xF0 = 0x70 \<longrightarrow>
      exec_instr prog' pc' m' = Next (pc' + 2) m' \<and>
      run_module prog' pc' m' = run_module prog' (pc' + 2) m')"
proof (intro conjI impI)
  assume h: "pc < length prog \<and> prog ! pc AND 0xF0 = 0x10"
  then show e: "exec_instr prog pc m = Halt" by (simp add: reserved_is_end)
  show "run_module prog pc m = Some m" by (subst run_module_unfold) (simp add: e)
next
  assume h: "pc' < length prog' \<and> prog' ! pc' AND 0xF0 = 0x70"
  then show e: "exec_instr prog' pc' m' = Next (pc' + 2) m'" by (simp add: skip2_7x)
  show "run_module prog' pc' m' = run_module prog' (pc' + 2) m'"
    by (subst run_module_unfold) (simp add: e)
qed

theorem reserved_opcode_ends_module_witness:
  "(0::nat) < length [0x10, 0x00, 0x90, 0x06, 0x00, 0x00 :: u8] \<and>
   [0x10, 0x00, 0x90, 0x06, 0x00, 0x00 :: u8] ! 0 AND 0xF0 = 0x10 \<and>
   run_module [0x10, 0x00, 0x90, 0x06, 0x00, 0x00] 0 (mem power_on_engine) =
     Some (mem power_on_engine) \<and>
   (0::nat) < length [0x7A, 0x00, 0x90, 0x06, 0x00, 0x00 :: u8] \<and>
   [0x7A, 0x00, 0x90, 0x06, 0x00, 0x00 :: u8] ! 0 AND 0xF0 = 0x70 \<and>
   exec_instr [0x7A, 0x00, 0x90, 0x06, 0x00, 0x00] 0 (mem power_on_engine) =
     Next 2 (mem power_on_engine)"
  using reserved_opcode_ends_module
    [of 0 "[0x10, 0x00, 0x90, 0x06, 0x00, 0x00]" "mem power_on_engine"
        0 "[0x7A, 0x00, 0x90, 0x06, 0x00, 0x00]" "mem power_on_engine"]
  by simp

subsection \<open>Mode entry\<close>
























subsection \<open>The COPY instruction\<close>

text \<open>
  A write through \<open>reg_write\<close> changes at most the addressed byte of the two channel
  blocks; a byte outside both blocks goes to the scratch byte.
\<close>
lemma and3_le: "unat ((op::u8) AND 0x03) \<le> 3"
  using word_and_le1 [of op 3] by (simp add: word_le_nat_alt)

lemma operand_addr_unat:
  "unat (operand_addr op lo) = unat (op AND 0x03) * 256 + unat lo"
proof -
  let ?x = "ucast (op AND 0x03) :: u16"
  have x: "unat ?x = unat (op AND 0x03)" by (rule unat_ucast_8_16)
  have "push_bit 8 ?x + ucast lo = push_bit 8 ?x OR ucast lo"
    by (rule disjunctive_add) (auto simp: bit_push_bit_iff bit_word_ucast_iff)
  then have "operand_addr op lo = ?x * 256 + ucast lo"
    by (simp add: operand_addr_def push_bit_eq_mult)
  moreover have "unat (?x * 256 + ucast lo) = unat (op AND 0x03) * 256 + unat lo"
    using and3_le [of op] unat_u8_lt [of lo]
    by (simp add: unat_word_ariths x unat_ucast_8_16)
  ultimately show ?thesis by simp
qed

lemma copy_len_bounds: "1 \<le> copy_len op \<and> copy_len op \<le> 8"
proof -
  have "drop_bit 2 (op AND 0x1C) \<le> drop_bit 2 (0x1C :: u8)"
    using word_and_le1 [of op "0x1C"]
    by (simp add: word_le_nat_alt unat_drop_bit_eq drop_bit_eq_div unat_div)
  then have "unat (drop_bit 2 (op AND 0x1C)) \<le> 7"
    by (simp add: word_le_nat_alt)
  then show ?thesis by (simp add: copy_len_def)
qed

lemma reg_write_A:
  "CHAN_BASE_A \<le> unat a \<Longrightarrow> unat a < CHAN_BASE_A + CHAN_BLOCK_SIZE \<Longrightarrow>
     reg_write a v m = m\<lparr>channel_a := (channel_a m)[unat a - CHAN_BASE_A := v]\<rparr>"
  by (simp add: reg_write_def channel_get_reg_ptr_def CHAN_BASE_A_def CHAN_BASE_B_def
      CHAN_BLOCK_SIZE_def)

lemma reg_write_B:
  "CHAN_BASE_B \<le> unat a \<Longrightarrow> unat a < CHAN_BASE_B + CHAN_BLOCK_SIZE \<Longrightarrow>
     reg_write a v m = m\<lparr>channel_b := (channel_b m)[unat a - CHAN_BASE_B := v]\<rparr>"
  by (simp add: reg_write_def channel_get_reg_ptr_def)

lemma reg_write_scratch:
  "\<not> (CHAN_BASE_A \<le> unat a \<and> unat a < CHAN_BASE_A + CHAN_BLOCK_SIZE) \<Longrightarrow>
   \<not> (CHAN_BASE_B \<le> unat a \<and> unat a < CHAN_BASE_B + CHAN_BLOCK_SIZE) \<Longrightarrow>
     reg_write a v m = m\<lparr>scratch_byte := v\<rparr>"
  by (auto simp: reg_write_def channel_get_reg_ptr_def)

lemma block_byte_reg_write:
  assumes "blocks_sized m"
  shows "blocks_sized (reg_write a v m) \<and>
     block_byte (reg_write a v m) x =
       (if x = unat a \<and> block_byte m x \<noteq> None then Some v else block_byte m x)"
proof (cases "CHAN_BASE_A \<le> unat a \<and> unat a < CHAN_BASE_A + CHAN_BLOCK_SIZE")
  case True
  then show ?thesis using assms
    by (auto simp: reg_write_A blocks_sized_def block_byte_def CHAN_BASE_A_def CHAN_BASE_B_def
        CHAN_BLOCK_SIZE_def nth_list_update)
next
  case a: False
  show ?thesis
  proof (cases "CHAN_BASE_B \<le> unat a \<and> unat a < CHAN_BASE_B + CHAN_BLOCK_SIZE")
    case True
    then show ?thesis using assms
      by (auto simp: reg_write_B blocks_sized_def block_byte_def CHAN_BASE_A_def CHAN_BASE_B_def
          CHAN_BLOCK_SIZE_def nth_list_update)
  next
    case False
    then show ?thesis using assms a
      by (auto simp: reg_write_scratch blocks_sized_def block_byte_def)
  qed
qed

lemma exec_copy_blocks:
  assumes sz: "blocks_sized m" and nowrap: "unat addr + n < 65536"
  shows "blocks_sized (fold (\<lambda>i. reg_write (addr + of_nat i) (f i)) [0..<n] m) \<and>
     (\<forall>x. block_byte (fold (\<lambda>i. reg_write (addr + of_nat i) (f i)) [0..<n] m) x =
        (if unat addr \<le> x \<and> x < unat addr + n \<and> block_byte m x \<noteq> None
         then Some (f (x - unat addr)) else block_byte m x))"
  using nowrap
proof (induction n)
  case 0
  show ?case using sz by auto
next
  case (Suc n)
  let ?W = "fold (\<lambda>i. reg_write (addr + of_nat i) (f i)) [0..<n] m"
  from Suc have ih: "blocks_sized ?W"
    and ihb: "\<And>x. block_byte ?W x =
        (if unat addr \<le> x \<and> x < unat addr + n \<and> block_byte m x \<noteq> None
         then Some (f (x - unat addr)) else block_byte m x)"
    by simp_all
  have ua: "unat (addr + of_nat n) = unat addr + n"
    using Suc.prems by (simp add: unat_word_ariths unat_of_nat)
  have step: "fold (\<lambda>i. reg_write (addr + of_nat i) (f i)) [0..<Suc n] m =
      reg_write (addr + of_nat n) (f n) ?W" by simp
  note bw = block_byte_reg_write [OF ih, of "addr + of_nat n" "f n"]
  show ?case
    unfolding step
  proof (intro conjI allI)
    show "blocks_sized (reg_write (addr + of_nat n) (f n) ?W)" using bw by simp
  next
    fix x
    show "block_byte (reg_write (addr + of_nat n) (f n) ?W) x =
        (if unat addr \<le> x \<and> x < unat addr + Suc n \<and> block_byte m x \<noteq> None
         then Some (f (x - unat addr)) else block_byte m x)"
      using bw [THEN conjunct2, of x] ihb [of x] ua
      by (auto simp: less_Suc_eq)
  qed
qed


text \<open>
  What a write does to the rest of the interpreter's memory: the scratch byte takes the
  value when the address lies outside both blocks, the PRNG state and the knob value are
  never touched.
\<close>

lemma block_byte_None_iff:
  "block_byte m x = None \<longleftrightarrow>
     \<not> (CHAN_BASE_A \<le> x \<and> x < CHAN_BASE_A + CHAN_BLOCK_SIZE) \<and>
     \<not> (CHAN_BASE_B \<le> x \<and> x < CHAN_BASE_B + CHAN_BLOCK_SIZE)"
  by (simp add: block_byte_def)

lemma reg_write_rest:
  "scratch_byte (reg_write a v m) = (if block_byte m (unat a) = None then v else scratch_byte m) \<and>
   prng_state (reg_write a v m) = prng_state m \<and> ma_knob (reg_write a v m) = ma_knob m"
proof (cases "CHAN_BASE_A \<le> unat a \<and> unat a < CHAN_BASE_A + CHAN_BLOCK_SIZE")
  case True
  then show ?thesis by (simp add: reg_write_A block_byte_None_iff)
next
  case a: False
  show ?thesis
  proof (cases "CHAN_BASE_B \<le> unat a \<and> unat a < CHAN_BASE_B + CHAN_BLOCK_SIZE")
    case True
    then show ?thesis by (simp add: reg_write_B block_byte_None_iff)
  next
    case False
    then show ?thesis using a by (simp add: reg_write_scratch block_byte_None_iff)
  qed
qed

lemma exec_copy_rest:
  assumes nowrap: "unat addr + n < 65536"
  shows "prng_state (fold (\<lambda>i. reg_write (addr + of_nat i) (f i)) [0..<n] m) = prng_state m \<and>
     ma_knob (fold (\<lambda>i. reg_write (addr + of_nat i) (f i)) [0..<n] m) = ma_knob m \<and>
     ((\<forall>i<n. block_byte m (unat addr + i) \<noteq> None) \<longrightarrow>
        scratch_byte (fold (\<lambda>i. reg_write (addr + of_nat i) (f i)) [0..<n] m) = scratch_byte m) \<and>
     (\<forall>i<n. block_byte m (unat addr + i) = None \<and>
        (\<forall>j. i < j \<and> j < n \<longrightarrow> block_byte m (unat addr + j) \<noteq> None) \<longrightarrow>
        scratch_byte (fold (\<lambda>i. reg_write (addr + of_nat i) (f i)) [0..<n] m) = f i)"
  using nowrap
proof (induction n)
  case 0
  show ?case by simp
next
  case (Suc n)
  let ?W = "fold (\<lambda>i. reg_write (addr + of_nat i) (f i)) [0..<n] m"
  from Suc have p: "prng_state ?W = prng_state m" and k: "ma_knob ?W = ma_knob m"
    and ins: "(\<forall>i<n. block_byte m (unat addr + i) \<noteq> None) \<Longrightarrow> scratch_byte ?W = scratch_byte m"
    and out: "\<And>i. i < n \<Longrightarrow> block_byte m (unat addr + i) = None \<Longrightarrow>
        (\<forall>j. i < j \<and> j < n \<longrightarrow> block_byte m (unat addr + j) \<noteq> None) \<Longrightarrow>
        scratch_byte ?W = f i"
    by simp_all
  have ua: "unat (addr + of_nat n) = unat addr + n"
    using Suc.prems by (simp add: unat_word_ariths unat_of_nat)
  have step: "fold (\<lambda>i. reg_write (addr + of_nat i) (f i)) [0..<Suc n] m =
      reg_write (addr + of_nat n) (f n) ?W" by simp
  have same: "block_byte ?W (unat addr + n) = None \<longleftrightarrow> block_byte m (unat addr + n) = None"
    by (simp add: block_byte_None_iff)
  note rw = reg_write_rest [of "addr + of_nat n" "f n" ?W]
  have sc: "scratch_byte (reg_write (addr + of_nat n) (f n) ?W) =
      (if block_byte m (unat addr + n) = None then f n else scratch_byte ?W)"
    using rw same by (simp add: ua)
  have sc_in: "block_byte m (unat addr + n) \<noteq> None \<Longrightarrow>
      scratch_byte (reg_write (addr + of_nat n) (f n) ?W) = scratch_byte ?W"
    and sc_out: "block_byte m (unat addr + n) = None \<Longrightarrow>
      scratch_byte (reg_write (addr + of_nat n) (f n) ?W) = f n"
    by (simp_all only: sc if_P if_not_P if_True if_False refl)
  show ?case
    unfolding step
  proof (intro conjI impI allI)
    show "prng_state (reg_write (addr + of_nat n) (f n) ?W) = prng_state m" using rw p by simp
  next
    show "ma_knob (reg_write (addr + of_nat n) (f n) ?W) = ma_knob m" using rw k by simp
  next
    assume a: "\<forall>i<Suc n. block_byte m (unat addr + i) \<noteq> None"
    then have "block_byte m (unat addr + n) \<noteq> None"
      and "\<forall>i<n. block_byte m (unat addr + i) \<noteq> None" by simp_all
    then show "scratch_byte (reg_write (addr + of_nat n) (f n) ?W) = scratch_byte m"
      using sc_in ins by metis
  next
    fix i
    assume i: "i < Suc n"
      and b: "block_byte m (unat addr + i) = None \<and>
        (\<forall>j. i < j \<and> j < Suc n \<longrightarrow> block_byte m (unat addr + j) \<noteq> None)"
    show "scratch_byte (reg_write (addr + of_nat n) (f n) ?W) = f i"
    proof (cases "i = n")
      case True
      then show ?thesis using sc_out b by blast
    next
      case False
      with i have lt: "i < n" by simp
      with b have "block_byte m (unat addr + n) \<noteq> None" by blast
      then have "scratch_byte (reg_write (addr + of_nat n) (f n) ?W) = scratch_byte ?W"
        by (rule sc_in)
      moreover have "scratch_byte ?W = f i"
        using out [OF lt] b by auto
      ultimately show ?thesis by simp
    qed
  qed
qed

lemma copy_len_field: "copy_len op = unat (drop_bit 2 op AND 0x07) + 1"
proof -
  have "drop_bit 2 (op AND 0x1C) = drop_bit 2 op AND drop_bit 2 (0x1C :: u8)"
    by (simp add: drop_bit_and)
  also have "drop_bit 2 (0x1C :: u8) = 0x07" by (simp add: drop_bit_eq_div)
  finally show ?thesis by (simp add: copy_len_def)
qed

lemma exec_instr_copy:
  assumes "pc < length prog" and "prog ! pc AND 0xE0 = 0x20"
    and "pc + 2 + copy_len (prog ! pc) \<le> length prog"
  shows "exec_instr prog pc m =
     Next (pc + 2 + copy_len (prog ! pc))
       (exec_copy prog pc (copy_len (prog ! pc)) (operand_addr (prog ! pc) (prog ! (pc + 1))) m)"
  using assms by (simp add: exec_instr_def Let_def)

text \<open>
  C6, as the code has it. COPY is encoded \<open>001lllaa\<close>: the length field is the three
  bits 4..2 of the opcode and the address-high field the two bits 1..0. With \<open>l\<close> the
  value of the length field and \<open>start = (aa << 8) | addr_low\<close>, the instruction writes
  the \<open>l + 1\<close> data bytes that follow \<open>addr_low\<close> to the consecutive addresses
  \<open>start .. start + l\<close>, in this order, and the interpreter continues \<open>2 + (l + 1)\<close>
  bytes further. A byte whose address lies in one of the two channel blocks is stored
  there and every other byte of the blocks is unchanged; a byte whose address lies
  outside both blocks is stored in the scratch byte, which therefore ends with the last
  such byte, or unchanged when there is none. The PRNG state and the knob value are
  unchanged.
\<close>

theorem copy_instruction:
  "pc < length prog \<and> prog ! pc AND 0xE0 = 0x20 \<and>
   l = unat (drop_bit 2 (prog ! pc) AND 0x07) \<and>
   start = unat (prog ! pc AND 0x03) * 256 + unat (prog ! (pc + 1)) \<and>
   pc + 2 + (l + 1) \<le> length prog \<and> blocks_sized m \<longrightarrow>
     (\<exists>m'. exec_instr prog pc m = Next (pc + 2 + (l + 1)) m' \<and>
           run_module prog pc m = run_module prog (pc + 2 + (l + 1)) m' \<and>
           blocks_sized m' \<and>
           (\<forall>x. block_byte m' x =
              (if start \<le> x \<and> x \<le> start + l \<and> block_byte m x \<noteq> None
               then Some (prog ! (pc + 2 + (x - start))) else block_byte m x)) \<and>
           ((\<forall>i\<le>l. block_byte m (start + i) \<noteq> None) \<longrightarrow>
              scratch_byte m' = scratch_byte m) \<and>
           (\<forall>i\<le>l. block_byte m (start + i) = None \<and>
              (\<forall>j. i < j \<and> j \<le> l \<longrightarrow> block_byte m (start + j) \<noteq> None) \<longrightarrow>
              scratch_byte m' = prog ! (pc + 2 + i)) \<and>
           prng_state m' = prng_state m \<and> ma_knob m' = ma_knob m)"
proof
  assume h: "pc < length prog \<and> prog ! pc AND 0xE0 = 0x20 \<and>
   l = unat (drop_bit 2 (prog ! pc) AND 0x07) \<and>
   start = unat (prog ! pc AND 0x03) * 256 + unat (prog ! (pc + 1)) \<and>
   pc + 2 + (l + 1) \<le> length prog \<and> blocks_sized m"
  let ?op = "prog ! pc"
  let ?addr = "operand_addr ?op (prog ! (pc + 1))"
  let ?m' = "exec_copy prog pc (copy_len ?op) ?addr m"
  from h have inb: "pc < length prog" and cp: "?op AND 0xE0 = 0x20"
    and sz: "blocks_sized m" by simp_all
  from h have len: "copy_len ?op = l + 1" by (simp add: copy_len_field)
  from h have st: "unat ?addr = start" by (simp add: operand_addr_unat)
  from h len have fit: "pc + 2 + copy_len ?op \<le> length prog" by simp
  have e: "exec_instr prog pc m = Next (pc + 2 + (l + 1)) ?m'"
    using exec_instr_copy [OF inb cp fit, of m] len by simp
  have r: "run_module prog pc m = run_module prog (pc + 2 + (l + 1)) ?m'"
    by (subst run_module_unfold) (simp add: e)
  have "start \<le> 3 * 256 + 255"
    using h and3_le [of ?op] unat_u8_lt [of "prog ! (pc + 1)"] by simp
  then have nowrap: "unat ?addr + copy_len ?op < 65536"
    using copy_len_bounds [of ?op] st by simp
  have m': "?m' = fold (\<lambda>i. reg_write (?addr + of_nat i) (prog ! (pc + 2 + i))) [0..<l + 1] m"
    by (simp only: exec_copy_def len)
  have nowrap': "unat ?addr + (l + 1) < 65536" using nowrap len by simp
  have lt: "\<And>i. i < l + 1 \<longleftrightarrow> i \<le> l" by auto
  note b = exec_copy_blocks [OF sz nowrap', of "\<lambda>i. prog ! (pc + 2 + i)", folded m',
      unfolded st lt]
  note c = exec_copy_rest [OF nowrap', of "\<lambda>i. prog ! (pc + 2 + i)" m, folded m',
      unfolded st lt]
  have sized: "blocks_sized ?m'" using b by (rule conjunct1)
  have bytes: "\<forall>x. block_byte ?m' x =
      (if start \<le> x \<and> x \<le> start + l \<and> block_byte m x \<noteq> None
       then Some (prog ! (pc + 2 + (x - start))) else block_byte m x)"
  proof
    fix x
    have "x < start + (l + 1) \<longleftrightarrow> x \<le> start + l" by auto
    then show "block_byte ?m' x =
      (if start \<le> x \<and> x \<le> start + l \<and> block_byte m x \<noteq> None
       then Some (prog ! (pc + 2 + (x - start))) else block_byte m x)"
      using b [THEN conjunct2, THEN spec, of x] by simp
  qed
  have rest: "((\<forall>i\<le>l. block_byte m (start + i) \<noteq> None) \<longrightarrow>
              scratch_byte ?m' = scratch_byte m) \<and>
           (\<forall>i\<le>l. block_byte m (start + i) = None \<and>
              (\<forall>j. i < j \<and> j \<le> l \<longrightarrow> block_byte m (start + j) \<noteq> None) \<longrightarrow>
              scratch_byte ?m' = prog ! (pc + 2 + i)) \<and>
           prng_state ?m' = prng_state m \<and> ma_knob ?m' = ma_knob m"
    using c by blast
  show "\<exists>m'. exec_instr prog pc m = Next (pc + 2 + (l + 1)) m' \<and>
           run_module prog pc m = run_module prog (pc + 2 + (l + 1)) m' \<and>
           blocks_sized m' \<and>
           (\<forall>x. block_byte m' x =
              (if start \<le> x \<and> x \<le> start + l \<and> block_byte m x \<noteq> None
               then Some (prog ! (pc + 2 + (x - start))) else block_byte m x)) \<and>
           ((\<forall>i\<le>l. block_byte m (start + i) \<noteq> None) \<longrightarrow>
              scratch_byte m' = scratch_byte m) \<and>
           (\<forall>i\<le>l. block_byte m (start + i) = None \<and>
              (\<forall>j. i < j \<and> j \<le> l \<longrightarrow> block_byte m (start + j) \<noteq> None) \<longrightarrow>
              scratch_byte m' = prog ! (pc + 2 + i)) \<and>
           prng_state m' = prng_state m \<and> ma_knob m' = ma_knob m"
    by (rule exI [of _ ?m']) (intro conjI e r sized bytes rest [THEN conjunct1]
        rest [THEN conjunct2, THEN conjunct1] rest [THEN conjunct2, THEN conjunct2, THEN conjunct1]
        rest [THEN conjunct2, THEN conjunct2, THEN conjunct2])
qed

text \<open>
  C6. The claim as stated (a two-bit length field in bits 4..3 and a three-bit
  address-high field in bits 2..0) fails: for the instruction \<open>24 90 11 22\<close> that reading
  gives one data byte written at \<open>0x490\<close> and three bytes consumed; the interpreter writes
  the two bytes \<open>11 22\<close> at \<open>0x090\<close>, \<open>0x091\<close> of channel A and consumes four bytes.
\<close>

theorem copy_format_counterexample:
  "exec_instr [0x24, 0x90, 0x11, 0x22, 0x00, 0x00] 0 (mem power_on_engine) =
     Next 4 ((mem power_on_engine)
       \<lparr>channel_a := (channel_a (mem power_on_engine))[0x10 := 0x11, 0x11 := 0x22]\<rparr>) \<and>
   spec_copy_size 0x24 = 3 \<and> spec_copy_count 0x24 = 1 \<and>
   spec_copy_start 0x24 0x90 = 0x490"
  by (simp add: interp_defs power_on_engine_def spec_copy_size_def spec_copy_count_def
      spec_copy_start_def drop_bit_eq_div)

text \<open>
  Two instructions on the power-on memory. \<open>24 90 11 22\<close> writes the gate value of
  channel A and the byte after it, the bytes around them and the scratch byte keep their
  values. \<open>24 BF 11 22\<close> starts at the last byte of block A: \<open>11\<close> is stored there and
  \<open>22\<close>, addressed to \<open>0x0C0\<close> outside both blocks, ends in the scratch byte.
\<close>

theorem copy_instruction_witness:
  "(0::nat) < length [0x24, 0x90, 0x11, 0x22, 0x00, 0x00 :: u8] \<and>
   [0x24, 0x90, 0x11, 0x22, 0x00, 0x00 :: u8] ! 0 AND 0xE0 = 0x20 \<and>
   (1::nat) = unat (drop_bit 2 ([0x24, 0x90, 0x11, 0x22, 0x00, 0x00 :: u8] ! 0) AND 0x07) \<and>
   (0x90::nat) = unat ([0x24, 0x90, 0x11, 0x22, 0x00, 0x00 :: u8] ! 0 AND 0x03) * 256 +
      unat ([0x24, 0x90, 0x11, 0x22, 0x00, 0x00 :: u8] ! (0 + 1)) \<and>
   (0xBF::nat) = unat ([0x24, 0xBF, 0x11, 0x22, 0x00, 0x00 :: u8] ! 0 AND 0x03) * 256 +
      unat ([0x24, 0xBF, 0x11, 0x22, 0x00, 0x00 :: u8] ! (0 + 1)) \<and>
   0 + 2 + ((1::nat) + 1) \<le> length [0x24, 0x90, 0x11, 0x22, 0x00, 0x00 :: u8] \<and>
   blocks_sized (mem power_on_engine) \<and>
   scratch_byte (mem power_on_engine) = 0x00 \<and>
   (\<exists>m'. exec_instr [0x24, 0x90, 0x11, 0x22, 0x00, 0x00] 0 (mem power_on_engine) = Next 4 m' \<and>
      block_byte m' 0x90 = Some 0x11 \<and> block_byte m' 0x91 = Some 0x22 \<and>
      block_byte m' 0x92 = Some 0x00 \<and> block_byte m' 0x8F = Some 0x00 \<and>
      scratch_byte m' = 0x00) \<and>
   (\<exists>m'. exec_instr [0x24, 0xBF, 0x11, 0x22, 0x00, 0x00] 0 (mem power_on_engine) = Next 4 m' \<and>
      block_byte m' 0xBF = Some 0x11 \<and> block_byte m' 0xC0 = None \<and>
      scratch_byte m' = 0x22)"
proof -
  have h1: "(0::nat) < length [0x24, 0x90, 0x11, 0x22, 0x00, 0x00 :: u8] \<and>
   [0x24, 0x90, 0x11, 0x22, 0x00, 0x00 :: u8] ! 0 AND 0xE0 = 0x20 \<and>
   (1::nat) = unat (drop_bit 2 ([0x24, 0x90, 0x11, 0x22, 0x00, 0x00 :: u8] ! 0) AND 0x07) \<and>
   (0x90::nat) = unat ([0x24, 0x90, 0x11, 0x22, 0x00, 0x00 :: u8] ! 0 AND 0x03) * 256 +
      unat ([0x24, 0x90, 0x11, 0x22, 0x00, 0x00 :: u8] ! (0 + 1)) \<and>
   0 + 2 + ((1::nat) + 1) \<le> length [0x24, 0x90, 0x11, 0x22, 0x00, 0x00 :: u8] \<and>
   blocks_sized (mem power_on_engine)"
    by (simp add: blocks_sized_def power_on_engine_def channel_defaults_def CHAN_BLOCK_SIZE_def
        drop_bit_eq_div)
  have h2: "(0::nat) < length [0x24, 0xBF, 0x11, 0x22, 0x00, 0x00 :: u8] \<and>
   [0x24, 0xBF, 0x11, 0x22, 0x00, 0x00 :: u8] ! 0 AND 0xE0 = 0x20 \<and>
   (1::nat) = unat (drop_bit 2 ([0x24, 0xBF, 0x11, 0x22, 0x00, 0x00 :: u8] ! 0) AND 0x07) \<and>
   (0xBF::nat) = unat ([0x24, 0xBF, 0x11, 0x22, 0x00, 0x00 :: u8] ! 0 AND 0x03) * 256 +
      unat ([0x24, 0xBF, 0x11, 0x22, 0x00, 0x00 :: u8] ! (0 + 1)) \<and>
   0 + 2 + ((1::nat) + 1) \<le> length [0x24, 0xBF, 0x11, 0x22, 0x00, 0x00 :: u8] \<and>
   blocks_sized (mem power_on_engine)"
    by (simp add: blocks_sized_def power_on_engine_def channel_defaults_def CHAN_BLOCK_SIZE_def
        drop_bit_eq_div)
  have old: "block_byte (mem power_on_engine) 0x90 = Some 0x07"
    "block_byte (mem power_on_engine) 0x91 = Some 0x00"
    "block_byte (mem power_on_engine) 0x92 = Some 0x00"
    "block_byte (mem power_on_engine) 0x8F = Some 0x00"
    "block_byte (mem power_on_engine) 0xBF = Some 0x00"
    "block_byte (mem power_on_engine) 0xC0 = None"
    by (simp_all add: block_byte_def power_on_engine_def channel_defaults_def CHAN_BASE_A_def
        CHAN_BASE_B_def CHAN_BLOCK_SIZE_def)
  have s0: "scratch_byte (mem power_on_engine) = 0x00" by (simp add: power_on_engine_def)
  from copy_instruction [of 0 "[0x24, 0x90, 0x11, 0x22, 0x00, 0x00]" 1 "0x90"
      "mem power_on_engine", THEN mp, OF h1]
  obtain m1 where e1: "exec_instr [0x24, 0x90, 0x11, 0x22, 0x00, 0x00] 0 (mem power_on_engine) =
        Next (0 + 2 + (1 + 1)) m1"
    and b1: "\<And>x. block_byte m1 x =
       (if 0x90 \<le> x \<and> x \<le> 0x90 + 1 \<and> block_byte (mem power_on_engine) x \<noteq> None
        then Some ([0x24, 0x90, 0x11, 0x22, 0x00, 0x00] ! (0 + 2 + (x - 0x90)))
        else block_byte (mem power_on_engine) x)"
    and c1: "(\<forall>i\<le>1. block_byte (mem power_on_engine) (0x90 + i) \<noteq> None) \<longrightarrow>
        scratch_byte m1 = scratch_byte (mem power_on_engine)"
    by blast
  have e1': "exec_instr [0x24, 0x90, 0x11, 0x22, 0x00, 0x00] 0 (mem power_on_engine) = Next 4 m1"
    using e1 by simp
  have "\<forall>i\<le>1. block_byte (mem power_on_engine) (0x90 + i) \<noteq> None"
  proof (intro allI impI)
    fix i :: nat
    assume "i \<le> 1"
    then have "i = 0 \<or> i = 1" by auto
    then show "block_byte (mem power_on_engine) (0x90 + i) \<noteq> None"
      by (elim disjE) (simp_all add: old)
  qed
  with c1 have "scratch_byte m1 = scratch_byte (mem power_on_engine)" by (rule mp)
  with s0 have sc1: "scratch_byte m1 = 0x00" by simp
  have v1: "block_byte m1 0x90 = Some 0x11" "block_byte m1 0x91 = Some 0x22"
    "block_byte m1 0x92 = Some 0x00" "block_byte m1 0x8F = Some 0x00"
    by (simp_all add: b1 old)
  have r1: "\<exists>m'. exec_instr [0x24, 0x90, 0x11, 0x22, 0x00, 0x00] 0 (mem power_on_engine) = Next 4 m' \<and>
      block_byte m' 0x90 = Some 0x11 \<and> block_byte m' 0x91 = Some 0x22 \<and>
      block_byte m' 0x92 = Some 0x00 \<and> block_byte m' 0x8F = Some 0x00 \<and>
      scratch_byte m' = 0x00"
    using e1' v1 sc1 by blast
  from copy_instruction [of 0 "[0x24, 0xBF, 0x11, 0x22, 0x00, 0x00]" 1 "0xBF"
      "mem power_on_engine", THEN mp, OF h2]
  obtain m2 where e2: "exec_instr [0x24, 0xBF, 0x11, 0x22, 0x00, 0x00] 0 (mem power_on_engine) =
        Next (0 + 2 + (1 + 1)) m2"
    and b2: "\<And>x. block_byte m2 x =
       (if 0xBF \<le> x \<and> x \<le> 0xBF + 1 \<and> block_byte (mem power_on_engine) x \<noteq> None
        then Some ([0x24, 0xBF, 0x11, 0x22, 0x00, 0x00] ! (0 + 2 + (x - 0xBF)))
        else block_byte (mem power_on_engine) x)"
    and c2: "\<forall>i\<le>1. block_byte (mem power_on_engine) (0xBF + i) = None \<and>
        (\<forall>j. i < j \<and> j \<le> 1 \<longrightarrow> block_byte (mem power_on_engine) (0xBF + j) \<noteq> None) \<longrightarrow>
        scratch_byte m2 = [0x24, 0xBF, 0x11, 0x22, 0x00, 0x00] ! (0 + 2 + i)"
    by blast
  have e2': "exec_instr [0x24, 0xBF, 0x11, 0x22, 0x00, 0x00] 0 (mem power_on_engine) = Next 4 m2"
    using e2 by simp
  have sc2: "scratch_byte m2 = 0x22"
    using c2 [THEN spec, of 1] by (auto simp: old)
  have v2: "block_byte m2 0xBF = Some 0x11" "block_byte m2 0xC0 = None"
    by (simp_all add: b2 old)
  have r2: "\<exists>m'. exec_instr [0x24, 0xBF, 0x11, 0x22, 0x00, 0x00] 0 (mem power_on_engine) = Next 4 m' \<and>
      block_byte m' 0xBF = Some 0x11 \<and> block_byte m' 0xC0 = None \<and>
      scratch_byte m' = 0x22"
    using e2' v2 sc2 by blast
  have hb: "(0xBF::nat) = unat ([0x24, 0xBF, 0x11, 0x22, 0x00, 0x00 :: u8] ! 0 AND 0x03) * 256 +
      unat ([0x24, 0xBF, 0x11, 0x22, 0x00, 0x00 :: u8] ! (0 + 1))"
    using h2 by blast
  from h1 hb s0 r1 r2 show ?thesis by blast
qed


end
